theory Spec2Isabelle
  imports Main "HOL-Library.Word"
begin

section \<open>Strings\<close>

text \<open>
  A JavaScript string is a sequence of UTF-16 code units. The escaping transform of
  \<^verbatim>\<open>serialize.ts\<close> works on the code units U+000A, U+0009, U+2063 and U+2064, the
  last two outside the range of \<^typ>\<open>char\<close>, so strings are lists of 16-bit words.
  \<open>js\<close> embeds an ASCII literal.
\<close>

type_synonym jsstr = "16 word list"

definition js :: "string \<Rightarrow> jsstr" where
  "js s = map of_char s"

text \<open>
  \<^verbatim>\<open>s.replace(/c/g, d)\<close> for a pattern and a replacement of one code unit each.
\<close>

definition replace_unit :: "16 word \<Rightarrow> 16 word \<Rightarrow> jsstr \<Rightarrow> jsstr" where
  "replace_unit c d s = map (\<lambda>u. if u = c then d else u) s"

text \<open>
  \<^verbatim>\<open>
  export function encodeJsonString(value: string) {
    if (!value) { return value; }
    return value.toString().replace(/\n/g, U+2063).replace(/\t/g, U+2064);
  }
  export function decodeJsonString(value: string) {
    if (!value) { return value; }
    return value.toString().replace(/U+2063/g, '\n').replace(/U+2064/g, '\t');
  }
  \<close>
  The replacement characters are written here by code point; the source file holds the
  two invisible characters themselves. The empty string is the only falsy string.
\<close>

definition encodeJsonString :: "jsstr \<Rightarrow> jsstr" where
  "encodeJsonString v =
     (if v = [] then v else replace_unit 0x09 0x2064 (replace_unit 0x0A 0x2063 v))"

definition decodeJsonString :: "jsstr \<Rightarrow> jsstr" where
  "decodeJsonString v =
     (if v = [] then v else replace_unit 0x2064 0x09 (replace_unit 0x2063 0x0A v))"

text \<open>
  \<^verbatim>\<open>s.replace(/\\n/g, '')\<close>: the pattern is a backslash followed by the letter n (two
  code units), not a newline. One pass from the left, matches do not overlap and the
  result is not scanned again.
\<close>

fun remove_backslash_n :: "jsstr \<Rightarrow> jsstr" where
  "remove_backslash_n (a # b # s) =
     (if a = 0x5C \<and> b = 0x6E then remove_backslash_n s else a # remove_backslash_n (b # s))"
| "remove_backslash_n s = s"

text \<open>Decimal digits of a natural number, as \<^verbatim>\<open>String(n)\<close> writes them.\<close>

fun str_of_nat :: "nat \<Rightarrow> jsstr" where
  "str_of_nat n =
     (if n < 10 then [0x30 + of_nat n] else str_of_nat (n div 10) @ [0x30 + of_nat (n mod 10)])"

declare str_of_nat.simps [simp del]

definition is_digit :: "16 word \<Rightarrow> bool" where
  "is_digit c = (0x30 \<le> c \<and> c \<le> 0x39)"

definition nat_of_digits :: "jsstr \<Rightarrow> nat" where
  "nat_of_digits s = foldl (\<lambda>n c. 10 * n + unat (c - 0x30)) 0 s"

text \<open>\<^verbatim>\<open>xs.join(sep)\<close> on strings.\<close>

fun join :: "jsstr \<Rightarrow> jsstr list \<Rightarrow> jsstr" where
  "join sep [] = []"
| "join sep [x] = x"
| "join sep (x # y # ys) = x @ sep @ join sep (y # ys)"

section \<open>Values\<close>

text \<open>
  A function value has an identity (two closures of one function expression are two
  values), the \<^verbatim>\<open>name\<close> property and the text that \<^verbatim>\<open>toString()\<close> returns.
\<close>

datatype func = Func (fn_id: nat) (fn_name: jsstr) (fn_body: jsstr)

text \<open>
  The values that the serializer walks: primitives, functions, arrays and plain objects.
  Numbers are the whole numbers from \<open>-2\<^sup>5\<^sup>3\<close> to \<open>2\<^sup>5\<^sup>3 - 1\<close> (a signed word of 54
  bits), which a double holds exactly and \<^verbatim>\<open>toString()\<close> writes in decimal digits; an
  object is the list of its own enumerable properties in the order
  \<^verbatim>\<open>Object.entries\<close> lists them, every key once, and its prototype is
  \<^verbatim>\<open>Object.prototype\<close>. \<open>VCallback\<close> is the arrow function that
  \<^verbatim>\<open>deserializeProps\<close> builds: the text that \<^verbatim>\<open>toString()\<close> gives for it, and the
  \<^verbatim>\<open>componentId\<close> and \<^verbatim>\<open>__componentMethod\<close> it closes over. Values are trees: no
  object is reachable from itself or held at two places.
\<close>

datatype jsval =
    VUndefined
  | VNull
  | VBool bool
  | VNum "54 word"
  | VStr jsstr
  | VFun func
  | VCallback jsstr jsstr jsval
  | VArr "jsval list"
  | VObj "(jsstr \<times> jsval) list"

type_synonym entries = "(jsstr \<times> jsval) list"

fun truthy :: "jsval \<Rightarrow> bool" where
  "truthy VUndefined = False"
| "truthy VNull = False"
| "truthy (VBool b) = b"
| "truthy (VNum n) = (n \<noteq> 0)"
| "truthy (VStr s) = (s \<noteq> [])"
| "truthy _ = True"

fun nullish :: "jsval \<Rightarrow> bool" where
  "nullish VUndefined = True"
| "nullish VNull = True"
| "nullish _ = False"

text \<open>\<^verbatim>\<open>typeof v === 'object'\<close> (true of \<^verbatim>\<open>null\<close>) and \<^verbatim>\<open>typeof v === 'function'\<close>.\<close>

fun typeof_object :: "jsval \<Rightarrow> bool" where
  "typeof_object VNull = True"
| "typeof_object (VArr xs) = True"
| "typeof_object (VObj kvs) = True"
| "typeof_object _ = False"

fun typeof_function :: "jsval \<Rightarrow> bool" where
  "typeof_function (VFun f) = True"
| "typeof_function (VCallback t c m) = True"
| "typeof_function _ = False"

text \<open>The \<^verbatim>\<open>name\<close> of a function; the arrow function of \<^verbatim>\<open>deserializeProps\<close> has none.\<close>

fun function_name :: "jsval \<Rightarrow> jsstr" where
  "function_name (VFun f) = fn_name f"
| "function_name _ = []"

text \<open>
  A plain object inherits the members of \<^verbatim>\<open>Object.prototype\<close>: a read of one of
  these names on an object that has no own property of the name gives a function (for
  \<^verbatim>\<open>__proto__\<close>, the prototype object), which is truthy.
\<close>

definition object_prototype_names :: "jsstr list" where
  "object_prototype_names =
     [js ''constructor'', js ''hasOwnProperty'', js ''isPrototypeOf'',
      js ''propertyIsEnumerable'', js ''toLocaleString'', js ''toString'', js ''valueOf'',
      js ''__defineGetter__'', js ''__defineSetter__'', js ''__lookupGetter__'',
      js ''__lookupSetter__'', js ''__proto__'']"

definition inherited :: "jsstr \<Rightarrow> jsval" where
  "inherited k =
     (if k = js ''__proto__'' then VObj []
      else if k = js ''constructor''
      then VFun (Func 0 (js ''Object'') (js ''function Object() { [native code] }''))
      else if k \<in> set object_prototype_names
      then VFun (Func 0 k (js ''function '' @ k @ js ''() { [native code] }''))
      else VUndefined)"

text \<open>
  \<^verbatim>\<open>v.k\<close> and \<^verbatim>\<open>v?.k\<close>, at the places where the source reads a member of a value
  that may be anything. The names read from arrays, strings and functions are
  \<^verbatim>\<open>type\<close>, \<^verbatim>\<open>props\<close>, \<^verbatim>\<open>children\<close>, \<^verbatim>\<open>childComponents\<close>, \<^verbatim>\<open>__bweMeta\<close>,
  \<^verbatim>\<open>isProxy\<close>, \<^verbatim>\<open>__componentMethod\<close>, \<^verbatim>\<open>__componentcallbacks\<close> and
  \<^verbatim>\<open>__domcallbacks\<close>, which none of them has; a method name is read from \<^verbatim>\<open>props\<close>
  only when \<^verbatim>\<open>props\<close> is an object with callbacks.
\<close>

fun get :: "jsval \<Rightarrow> jsstr \<Rightarrow> jsval" where
  "get (VObj kvs) k = (case map_of kvs k of Some v \<Rightarrow> v | None \<Rightarrow> inherited k)"
| "get v k = VUndefined"

text \<open>\<^verbatim>\<open>k in v\<close>, for an object \<open>v\<close> and the names above.\<close>

fun has_key :: "jsval \<Rightarrow> jsstr \<Rightarrow> bool" where
  "has_key (VObj kvs) k = (k \<in> fst ` set kvs \<or> k \<in> set object_prototype_names)"
| "has_key v k = False"

text \<open>
  \<^verbatim>\<open>Object.entries(v)\<close>, also the properties that \<^verbatim>\<open>{ ...v }\<close> copies: the elements
  of an array and the code units of a string under their indices, nothing for the other
  primitives and for functions.
\<close>

fun entries :: "jsval \<Rightarrow> entries" where
  "entries (VObj kvs) = kvs"
| "entries (VArr xs) = zip (map str_of_nat [0..<length xs]) xs"
| "entries (VStr s) = zip (map str_of_nat [0..<length s]) (map (\<lambda>c. VStr [c]) s)"
| "entries v = []"

text \<open>
  A property key that is an array index (the decimal form of a number below
  \<open>2\<^sup>3\<^sup>2 - 1\<close>) is listed before the other keys, in ascending order; the other keys
  are listed in the order of their creation.
\<close>

definition array_index :: "jsstr \<Rightarrow> nat option" where
  "array_index k =
     (if k \<noteq> [] \<and> list_all is_digit k
      then (if str_of_nat (nat_of_digits k) = k \<and> nat_of_digits k < 4294967295
            then Some (nat_of_digits k) else None)
      else None)"

fun insert_index :: "nat \<Rightarrow> jsstr \<Rightarrow> 'a \<Rightarrow> (jsstr \<times> 'a) list \<Rightarrow> (jsstr \<times> 'a) list" where
  "insert_index i k v [] = [(k, v)]"
| "insert_index i k v ((k', v') # kvs) =
     (case array_index k' of
        Some j \<Rightarrow> if j < i then (k', v') # insert_index i k v kvs else (k, v) # (k', v') # kvs
      | None \<Rightarrow> (k, v) # (k', v') # kvs)"

text \<open>
  Defining the own property \<open>k\<close> with the value \<open>v\<close>, as an object literal
  \<^verbatim>\<open>{ ...o, k: v }\<close>, a spread and \<^verbatim>\<open>Object.fromEntries\<close> do for every key: an
  existing property keeps its place.
\<close>

definition obj_define :: "(jsstr \<times> 'a) list \<Rightarrow> jsstr \<Rightarrow> 'a \<Rightarrow> (jsstr \<times> 'a) list" where
  "obj_define kvs k v =
     (if k \<in> fst ` set kvs then map (\<lambda>(k', v'). if k' = k then (k', v) else (k', v')) kvs
      else case array_index k of
             Some i \<Rightarrow> insert_index i k v kvs
           | None \<Rightarrow> kvs @ [(k, v)])"

text \<open>
  The assignment \<^verbatim>\<open>o[k] = v\<close> writes an own property of \<open>o\<close> or, when \<open>o\<close> has none of
  that name, goes by what \<open>o\<close> inherits. \<^verbatim>\<open>Object.prototype\<close> holds the accessor
  \<^verbatim>\<open>__proto__\<close>: its setter makes \<open>v\<close> the prototype of \<open>o\<close> when \<open>v\<close> is an object,
  a function or \<^verbatim>\<open>null\<close>, does nothing for another \<open>v\<close>, and defines no property.
  \<open>obj_assign\<close> is the assignment on an object whose prototype is
  \<^verbatim>\<open>Object.prototype\<close>, by the own properties it leaves.
\<close>

definition obj_assign :: "(jsstr \<times> 'a) list \<Rightarrow> jsstr \<Rightarrow> 'a \<Rightarrow> (jsstr \<times> 'a) list" where
  "obj_assign kvs k v =
     (if k = js ''__proto__'' \<and> k \<notin> fst ` set kvs then kvs else obj_define kvs k v)"

text \<open>\<^verbatim>\<open>delete o[k]\<close>.\<close>

definition obj_delete :: "entries \<Rightarrow> jsstr \<Rightarrow> entries" where
  "obj_delete kvs k = filter (\<lambda>(k', v'). k' \<noteq> k) kvs"

text \<open>\<^verbatim>\<open>{ ...a, ...b }\<close> and \<^verbatim>\<open>Object.fromEntries(b)\<close>: the properties are set in order.\<close>

definition assign :: "entries \<Rightarrow> entries \<Rightarrow> entries" where
  "assign a b = fold (\<lambda>(k, v) acc. obj_define acc k v) b a"

definition fromEntries :: "entries \<Rightarrow> entries" where
  "fromEntries b = assign [] b"

text \<open>
  \<^verbatim>\<open>String(v)\<close>, as \<^verbatim>\<open>toString()\<close> and \<^verbatim>\<open>join\<close> compute it; in a joined array
  \<^verbatim>\<open>undefined\<close> and \<^verbatim>\<open>null\<close> are written as the empty string.
\<close>

fun js_toString :: "jsval \<Rightarrow> jsstr" where
  "js_toString VUndefined = js ''undefined''"
| "js_toString VNull = js ''null''"
| "js_toString (VBool b) = (if b then js ''true'' else js ''false'')"
| "js_toString (VNum n) =
     (if sint n < 0 then js ''-'' @ str_of_nat (nat (- sint n)) else str_of_nat (nat (sint n)))"
| "js_toString (VStr s) = s"
| "js_toString (VFun f) = fn_body f"
| "js_toString (VCallback t c m) = t"
| "js_toString (VArr xs) =
     join (js '','') (map (\<lambda>x. if nullish x then [] else js_toString x) xs)"
| "js_toString (VObj kvs) = js ''[object Object]''"

definition js_join :: "jsstr \<Rightarrow> jsval list \<Rightarrow> jsstr" where
  "js_join sep xs = join sep (map (\<lambda>x. if nullish x then [] else js_toString x) xs)"

section \<open>Objects built by assignments\<close>

text \<open>
  A \<^verbatim>\<open>throw\<close> is a value: \<open>Error m\<close> for \<^verbatim>\<open>new Error(m)\<close>, \<open>TypeError\<close> and
  \<open>RangeError\<close> for the engine's own (a member read on \<^verbatim>\<open>undefined\<close>, a call of
  something that is no function, a property written on a primitive or over a read-only
  one in strict code; a \<^verbatim>\<open>length\<close> given to an array that is no length). A function that
  can throw returns \<open>error + 'a\<close> together with the state it leaves: what it wrote before
  the throw stays written.
\<close>

datatype error = Error jsstr | TypeError | RangeError

text \<open>
  \<^verbatim>\<open>serializeProps\<close> and \<^verbatim>\<open>deserializeProps\<close> build their result from \<^verbatim>\<open>{}\<close> by
  assignments \<^verbatim>\<open>o[k] = v\<close> under the keys of their argument, \<^verbatim>\<open>__proto__\<close> among
  them when the argument has a property of that name. Such an object is followed with
  its prototype: \<^verbatim>\<open>Object.prototype\<close>, none (after \<^verbatim>\<open>o.__proto__ = null\<close>), or the
  value that has taken its place.
\<close>

datatype prototype = ObjectPrototype | NullPrototype | Prototype jsval

type_synonym object = "prototype \<times> entries"

fun is_object :: "jsval \<Rightarrow> bool" where
  "is_object (VFun f) = True"
| "is_object (VCallback t c m) = True"
| "is_object (VArr xs) = True"
| "is_object (VObj kvs) = True"
| "is_object v = False"

text \<open>The setter of \<^verbatim>\<open>__proto__\<close>, called with \<open>v\<close> on an object of prototype \<open>p\<close>.\<close>

definition set_prototype :: "jsval \<Rightarrow> prototype \<Rightarrow> prototype" where
  "set_prototype v p = (if is_object v then Prototype v else if v = VNull then NullPrototype else p)"

text \<open>
  What the assignment of a name that is no own property of \<open>o\<close> does, by the prototype
  of \<open>o\<close>.
  \<^item> Through \<^verbatim>\<open>Object.prototype\<close>: \<^verbatim>\<open>__proto__\<close> calls the setter; any other name is
    created (the other members of \<^verbatim>\<open>Object.prototype\<close> are writable).
  \<^item> Without a prototype every name is created.
  \<^item> Through a plain object: a name that this object holds is created (its properties
    are writable data properties), \<^verbatim>\<open>__proto__\<close> too; another name goes on to
    \<^verbatim>\<open>Object.prototype\<close>.
  \<^item> Through an array: as through \<^verbatim>\<open>Object.prototype\<close> (the elements, \<^verbatim>\<open>length\<close> and
    the members of \<^verbatim>\<open>Array.prototype\<close> are writable).
  \<^item> Through a function: \<^verbatim>\<open>name\<close> and \<^verbatim>\<open>length\<close> are read-only and the setters of
    \<^verbatim>\<open>caller\<close> and \<^verbatim>\<open>arguments\<close> throw, so the assignment throws a
    \<^verbatim>\<open>TypeError\<close> in strict code; another name goes on to \<^verbatim>\<open>Object.prototype\<close>.
\<close>

datatype assignment = CreatesProperty | SetsPrototype | ThrowsTypeError

definition function_unwritable :: "jsstr list" where
  "function_unwritable = [js ''name'', js ''length'', js ''caller'', js ''arguments'']"

definition through_object_prototype :: "jsstr \<Rightarrow> assignment" where
  "through_object_prototype k = (if k = js ''__proto__'' then SetsPrototype else CreatesProperty)"

fun assigns_through :: "prototype \<Rightarrow> jsstr \<Rightarrow> assignment" where
  "assigns_through ObjectPrototype k = through_object_prototype k"
| "assigns_through NullPrototype k = CreatesProperty"
| "assigns_through (Prototype (VObj qs)) k =
     (if k \<in> fst ` set qs then CreatesProperty else through_object_prototype k)"
| "assigns_through (Prototype (VFun f)) k =
     (if k \<in> set function_unwritable then ThrowsTypeError else through_object_prototype k)"
| "assigns_through (Prototype (VCallback t c m)) k =
     (if k \<in> set function_unwritable then ThrowsTypeError else through_object_prototype k)"
| "assigns_through (Prototype v) k = through_object_prototype k"

text \<open>\<^verbatim>\<open>o[k] = v\<close> in strict code, for an object \<open>o\<close> built by assignments.\<close>

fun obj_write :: "object \<Rightarrow> jsstr \<Rightarrow> jsval \<Rightarrow> error + object" where
  "obj_write (p, kvs) k v =
     (if k \<in> fst ` set kvs then Inr (p, obj_define kvs k v)
      else case assigns_through p k of
             CreatesProperty \<Rightarrow> Inr (p, obj_define kvs k v)
           | SetsPrototype \<Rightarrow> Inr (set_prototype v p, kvs)
           | ThrowsTypeError \<Rightarrow> Inl TypeError)"

text \<open>
  \<^verbatim>\<open>o.k\<close> for such an object: its own property, or what it inherits. The getter of
  \<^verbatim>\<open>__proto__\<close> gives the prototype.
\<close>

fun obj_read :: "object \<Rightarrow> jsstr \<Rightarrow> jsval" where
  "obj_read (p, kvs) k =
     (case map_of kvs k of
        Some v \<Rightarrow> v
      | None \<Rightarrow>
          (case p of
             ObjectPrototype \<Rightarrow> inherited k
           | NullPrototype \<Rightarrow> VUndefined
           | Prototype q \<Rightarrow>
               if k = js ''__proto__'' \<and> \<not> (k \<in> fst ` set (case q of VObj qs \<Rightarrow> qs | _ \<Rightarrow> []))
               then q else get q k))"

text \<open>
  A write into the object that \<^verbatim>\<open>o.k\<close> has just been read as changes that object where
  it is: under \<open>k\<close> in \<open>o\<close> or, when \<open>o\<close> has no such property, in the plain object that
  is the prototype of \<open>o\<close>. \<open>obj_update o k v\<close> is \<open>o\<close> with \<open>v\<close>, the object after the
  write, in that place.
\<close>

fun obj_update :: "object \<Rightarrow> jsstr \<Rightarrow> jsval \<Rightarrow> object" where
  "obj_update (p, kvs) k v =
     (if k \<in> fst ` set kvs then (p, obj_define kvs k v)
      else case p of
             Prototype (VObj qs) \<Rightarrow> (Prototype (VObj (obj_define qs k v)), kvs)
           | _ \<Rightarrow> (p, kvs))"

section \<open>Component identifiers\<close>

text \<open>
  \<^verbatim>\<open>
  function buildComponentId({ instanceId, componentPath, parentComponentId }) {
    return [componentPath, instanceId?.toString(), parentComponentId].join('##');
  }
  \<close>
  The declared types are \<^verbatim>\<open>string | undefined\<close> for \<^verbatim>\<open>instanceId\<close> and
  \<^verbatim>\<open>string\<close> for the other two; the callers pass the \<^verbatim>\<open>id\<close> and \<^verbatim>\<open>src\<close>
  properties of a props object, which can hold any value.
\<close>

definition optional_toString :: "jsval \<Rightarrow> jsval" where
  "optional_toString v = (if nullish v then VUndefined else VStr (js_toString v))"

definition buildComponentId :: "jsval \<Rightarrow> jsval \<Rightarrow> jsstr \<Rightarrow> jsstr" where
  "buildComponentId instanceId componentPath parentComponentId =
     js_join (js ''##'') [componentPath, optional_toString instanceId, VStr parentComponentId]"

section \<open>The container's state\<close>

text \<open>
  The calls of \<^verbatim>\<open>console.error\<close> and \<^verbatim>\<open>console.warn\<close>, in order. The warning of a
  failed component load carries the caught error and the props that failed.
\<close>

datatype console_call =
    ConsoleError jsstr
  | ConsoleWarn jsstr
  | ConsoleWarnLoad jsstr error jsval

text \<open>
  Modelled from the spec: \<^verbatim>\<open>buildRequest\<close> and \<^verbatim>\<open>postCallbackInvocationMessage\<close> are
  defined outside the files at hand (\<^verbatim>\<open>types.ts\<close> declares them). A pending request
  holds an unsettled promise; the invocation envelope has the fields \<^verbatim>\<open>originator\<close>,
  \<^verbatim>\<open>targetId\<close>, \<^verbatim>\<open>method\<close>, \<^verbatim>\<open>requestId\<close> and the serialized \<^verbatim>\<open>args\<close>.
\<close>

datatype request = Pending

record invocation =
  inv_args :: "jsval list"
  inv_method :: jsval
  inv_originator :: jsstr
  inv_requestId :: jsstr
  inv_targetId :: jsstr

text \<open>
  What one container owns and mutates: the \<^verbatim>\<open>CallbackMap\<close> and the \<^verbatim>\<open>RequestMap\<close>
  (both plain objects), its console, the envelopes it has posted and the number of
  request ids it has drawn.
\<close>

record container =
  callbacks :: entries
  requests :: "(jsstr \<times> request) list"
  console :: "console_call list"
  posted :: "invocation list"
  uuids_drawn :: nat

text \<open>
  The parameters of \<^verbatim>\<open>composeSerializationMethods\<close> that are not state:
  \<^verbatim>\<open>isComponent\<close>, \<^verbatim>\<open>isWidget\<close> and \<^verbatim>\<open>parentContainerId\<close>
  (\<^verbatim>\<open>string | null\<close>). \<open>randomUUID n\<close> is what the \<open>n\<close>-th call of
  \<^verbatim>\<open>window.crypto.randomUUID()\<close> returns, and \<open>callbackSource\<close> the text that
  \<^verbatim>\<open>toString()\<close> gives for the arrow function of \<^verbatim>\<open>deserializeProps\<close>.
\<close>

record params =
  isComponent :: "jsval \<Rightarrow> bool"
  isWidget :: "jsval \<Rightarrow> bool"
  parentContainerId :: "jsstr option"
  randomUUID :: "nat \<Rightarrow> jsstr"
  callbackSource :: jsstr

section \<open>Serializing call arguments\<close>

text \<open>
  \<^verbatim>\<open>
  const serializeArgs = ({ args, callbacks, componentId }) => {
    return (args || []).map((arg) => {
      if (!arg) { return arg; }
      if (Array.isArray(arg)) {
        return serializeArgs({ args: arg, callbacks, componentId });
      }
      if (typeof arg === 'object') {
        const argKeys = Object.keys(arg);
        return Object.fromEntries(
          serializeArgs({ args: Object.values(arg), callbacks, componentId })
            .map((value, i) => [argKeys[i], value]));
      }
      if (typeof arg !== 'function') { return arg; }
      const callbackBody = arg.toString().replace(/\\n/g, '');
      const fnKey = callbackBody + '::' + componentId;
      callbacks[fnKey] = arg;
      return { __componentMethod: fnKey };
    });
  };
  \<close>
  \<open>args\<close> is an array at every call, so \<^verbatim>\<open>args || []\<close> is \<open>args\<close>. The callback map
  is passed in and returned.
\<close>

definition argFnKey :: "jsstr \<Rightarrow> jsval \<Rightarrow> jsstr" where
  "argFnKey componentId arg = remove_backslash_n (js_toString arg) @ js ''::'' @ componentId"

lemma size_values_le:
  "size_list size (map snd kvs) \<le> size_list (size_prod (\<lambda>x. 0) size) kvs"
  by (induction kvs) auto

function serializeArgs :: "jsstr \<Rightarrow> jsval list \<Rightarrow> entries \<Rightarrow> jsval list \<times> entries" where
  "serializeArgs componentId [] cbs = ([], cbs)"
| "serializeArgs componentId (arg # args) cbs =
     (let (r, cbs1) =
        (if \<not> truthy arg then (arg, cbs)
         else case arg of
           VArr xs \<Rightarrow>
             (let (ys, c) = serializeArgs componentId xs cbs in (VArr ys, c))
         | VObj kvs \<Rightarrow>
             (let (ys, c) = serializeArgs componentId (map snd kvs) cbs
              in (VObj (fromEntries (zip (map fst kvs) ys)), c))
         | VFun f \<Rightarrow>
             (VObj [(js ''__componentMethod'', VStr (argFnKey componentId arg))],
              obj_assign cbs (argFnKey componentId arg) arg)
         | VCallback t c m \<Rightarrow>
             (VObj [(js ''__componentMethod'', VStr (argFnKey componentId arg))],
              obj_assign cbs (argFnKey componentId arg) arg)
         | _ \<Rightarrow> (arg, cbs));
          (rs, cbs2) = serializeArgs componentId args cbs1
      in (r # rs, cbs2))"
  by pat_completeness auto
termination
proof (relation "measure (\<lambda>(c, args, cbs). size_list size args)", goal_cases)
  case 1
  show ?case by simp
next
  case (2 componentId arg args cbs xs)
  then show ?case by simp
next
  case (3 componentId arg args cbs kvs)
  then show ?case using size_values_le [of kvs] by simp
next
  case (4 componentId arg args cbs)
  then show ?case by simp
qed

section \<open>Serializing props and nodes\<close>

text \<open>
  The tests at the head of the reducer of \<^verbatim>\<open>serializeProps\<close>:
  \<^verbatim>\<open>
  const isComponent = value?.props && typeof value === 'object'
    && '__' in value && '__k' in value;
  const isProxy = value?.__bweMeta?.isProxy || false;
  \<close>
  The first is named \<open>isRendered\<close> here, apart from the parameter \<^verbatim>\<open>isComponent\<close>
  of \<^verbatim>\<open>composeSerializationMethods\<close>.
\<close>

definition isRendered :: "jsval \<Rightarrow> bool" where
  "isRendered v =
     (truthy (get v (js ''props'')) \<and> typeof_object v \<and> has_key v (js ''__'') \<and>
      has_key v (js ''__k''))"

definition isProxy :: "jsval \<Rightarrow> bool" where
  "isProxy v = truthy (get (get v (js ''__bweMeta'')) (js ''isProxy''))"

text \<open>
  \<^verbatim>\<open>
  const fnKey = [
    key,
    componentId || value.toString().replace(/\\n/g, ''),
    parentId,
  ].join('::');
  \<close>
  \<^verbatim>\<open>componentId\<close> is \<^verbatim>\<open>string | undefined\<close>; \<open>callbackIdentity\<close> is the second element.
\<close>

definition callbackIdentity :: "jsstr option \<Rightarrow> jsval \<Rightarrow> jsstr" where
  "callbackIdentity componentId v =
     (case componentId of
        Some c \<Rightarrow> if c \<noteq> [] then c else remove_backslash_n (js_toString v)
      | None \<Rightarrow> remove_backslash_n (js_toString v))"

definition propFnKey :: "jsstr \<Rightarrow> jsstr option \<Rightarrow> jsval \<Rightarrow> jsstr \<Rightarrow> jsstr" where
  "propFnKey key componentId v parentId =
     join (js ''::'') [key, callbackIdentity componentId v, parentId]"

text \<open>
  \<^verbatim>\<open>
  if (!newProps.__componentcallbacks) { newProps.__componentcallbacks = {}; }
  newProps.__componentcallbacks[key] = { __componentMethod: fnKey, parentId };
  \<close>
  and the same for \<^verbatim>\<open>__domcallbacks\<close>. The read \<^verbatim>\<open>newProps.__componentcallbacks\<close>
  finds a plain prop of that name copied before, or one of the prototype that a prop
  named \<^verbatim>\<open>__proto__\<close> has given to \<^verbatim>\<open>newProps\<close>; when that value is truthy the write
  goes to it.
  \<^item> Into the object when it is one. That object has the prototype \<^verbatim>\<open>Object.prototype\<close>
    or, after a write under \<^verbatim>\<open>__proto__\<close>, a marker, a plain object with no
    \<^verbatim>\<open>__proto__\<close> of its own, through which an assignment does the same.
  \<^item> Into the array when it is one: an index up to its length sets or adds the element,
    \<^verbatim>\<open>length\<close> throws a \<^verbatim>\<open>RangeError\<close> (the marker is no number). An index beyond the
    length leaves holes and another name becomes a property of the array; this model of
    arrays holds neither.
  \<^item> A function takes the property, which this model of functions does not hold, but for
    the names it cannot be assigned.
  \<^item> A primitive makes the write throw a \<^verbatim>\<open>TypeError\<close> (the module is strict code), but
    for \<^verbatim>\<open>__proto__\<close>, whose setter does nothing for a primitive.
\<close>

definition addMarker :: "jsstr \<Rightarrow> jsstr \<Rightarrow> jsval \<Rightarrow> object \<Rightarrow> error + object" where
  "addMarker family key marker newProps =
     (case (if truthy (obj_read newProps family) then Inr newProps
            else obj_write newProps family (VObj [])) of
        Inl e \<Rightarrow> Inl e
      | Inr np \<Rightarrow>
          (case obj_read np family of
             VObj m \<Rightarrow> Inr (obj_update np family (VObj (obj_assign m key marker)))
           | VArr xs \<Rightarrow>
               (case array_index key of
                  Some i \<Rightarrow>
                    if i < length xs then Inr (obj_update np family (VArr (xs[i := marker])))
                    else if i = length xs then Inr (obj_update np family (VArr (xs @ [marker])))
                    else Inr np
                | None \<Rightarrow> if key = js ''length'' then Inl RangeError else Inr np)
           | VFun f \<Rightarrow> if key \<in> set function_unwritable then Inl TypeError else Inr np
           | VCallback t c m \<Rightarrow>
               if key \<in> set function_unwritable then Inl TypeError else Inr np
           | _ \<Rightarrow> if key = js ''__proto__'' then Inr np else Inl TypeError))"

text \<open>
  The function branch of the reducer: the value is stored in the callback map under its
  key and the marker takes its place in the new props.
  \<^verbatim>\<open>
  callbacks[fnKey] = value;
  if (componentId) {
    ... newProps.__componentcallbacks[key] = { __componentMethod: fnKey, parentId };
  } else {
    ... newProps.__domcallbacks[key] = { __componentMethod: fnKey };
  }
  \<close>
\<close>

definition registerCallback ::
  "jsstr option \<Rightarrow> jsstr \<Rightarrow> jsstr \<Rightarrow> jsval \<Rightarrow> object \<Rightarrow> container \<Rightarrow> (error + object) \<times> container"
where
  "registerCallback componentId parentId key v newProps st =
     (let fnKey = propFnKey key componentId v parentId;
          st1 = st\<lparr>callbacks := obj_assign (callbacks st) fnKey v\<rparr>
      in if componentId \<noteq> None \<and> componentId \<noteq> Some []
         then (addMarker (js ''__componentcallbacks'') key
                 (VObj [(js ''__componentMethod'', VStr fnKey), (js ''parentId'', VStr parentId)])
                 newProps, st1)
         else (addMarker (js ''__domcallbacks'') key
                 (VObj [(js ''__componentMethod'', VStr fnKey)]) newProps, st1))"

text \<open>
  The head of \<^verbatim>\<open>serializeNode\<close>:
  \<^verbatim>\<open>
  const children = node?.props?.children || [];
  let props = { ...node.props };
  delete props.children;
  let unifiedChildren = Array.isArray(children) ? children : [children];
  unifiedChildren
    .filter((child) => child && typeof child === 'object' && 'childComponents' in child)
    .forEach((child) => {
      child.childComponents.forEach((childComponent) => childComponents.push(childComponent));
    });
  \<close>
  \<^verbatim>\<open>forEach\<close> on something that is no array throws; the elements pushed before stay.
\<close>

definition unifiedChildren :: "jsval \<Rightarrow> jsval list" where
  "unifiedChildren node =
     (let c = get (get node (js ''props'')) (js ''children'');
          children = (if truthy c then c else VArr [])
      in case children of VArr xs \<Rightarrow> xs | _ \<Rightarrow> [children])"

definition nodeProps :: "jsval \<Rightarrow> entries" where
  "nodeProps node = obj_delete (entries (get node (js ''props''))) (js ''children'')"

fun bubble :: "jsval list \<Rightarrow> jsval list \<Rightarrow> error option \<times> jsval list" where
  "bubble [] acc = (None, acc)"
| "bubble (child # cs) acc =
     (if truthy child \<and> typeof_object child \<and> has_key child (js ''childComponents'')
      then (case get child (js ''childComponents'') of
              VArr ys \<Rightarrow> bubble cs (acc @ ys)
            | _ \<Rightarrow> (Some TypeError, acc))
      else bubble cs acc)"

text \<open>\<^verbatim>\<open>xs.flat()\<close>: one level.\<close>

definition flat :: "jsval list \<Rightarrow> jsval list" where
  "flat xs = concat (map (\<lambda>x. case x of VArr ys \<Rightarrow> ys | _ \<Rightarrow> [x]) xs)"

definition placeholder :: "jsstr \<Rightarrow> jsval" where
  "placeholder componentId =
     VObj [(js ''type'', VStr (js ''div'')),
           (js ''props'',
            VObj [(js ''id'', VStr (js ''dom-'' @ componentId)),
                  (js ''__bweMeta'', VObj [(js ''componentId'', VStr componentId)]),
                  (js ''className'', VStr (js ''container-child''))])]"

definition widgetDeprecation :: jsstr where
  "widgetDeprecation = js ''<Widget /> will be deprecated in upcoming versions of BOS Web Engine. Please update your code to reference <Component /> instead.''"

text \<open>
  Sizes of the parts of a value, for the termination of the serializer: what it recurses
  into is read out of the node by \<open>get\<close>, \<open>entries\<close> and \<open>flat\<close>.
\<close>
lemma size_member_le: "(k, v) \<in> set kvs \<Longrightarrow> size v \<le> sum_list (map (size \<circ> snd) kvs)"
  by (induction kvs) auto

lemma size_map_of_le: "map_of kvs k = Some v \<Longrightarrow> size v \<le> sum_list (map (size \<circ> snd) kvs)"
  by (rule size_member_le) (erule map_of_SomeD)

lemma sum_sizes_lt_VObj: "sum_list (map (size \<circ> snd) kvs) < size (VObj kvs)"
  by (induction kvs) auto

lemma sum_sizes_lt_VArr: "sum_list (map size xs) < size (VArr xs)"
  by (induction xs) auto

lemma sum_sizes_zip_le: "sum_list (map (size \<circ> snd) (zip ks xs)) \<le> sum_list (map size xs)"
proof (induction xs arbitrary: ks)
  case Nil
  then show ?case by simp
next
  case (Cons x xs)
  then show ?case by (cases ks) (auto intro: le_trans)
qed

lemma sum_sizes_entries_le: "sum_list (map (size \<circ> snd) (entries v)) \<le> size v"
proof (cases v)
  case (VStr s)
  have "sum_list (map (size \<circ> snd) (entries v))
          \<le> sum_list (map size (map (\<lambda>c. VStr [c]) s))"
    unfolding VStr entries.simps by (rule sum_sizes_zip_le)
  also have "\<dots> = 0"
    by (induction s) auto
  finally have "sum_list (map (size \<circ> snd) (entries v)) \<le> 0" .
  then show ?thesis by (rule le_trans) simp
next
  case (VArr xs)
  then show ?thesis
    using sum_sizes_zip_le [of "map str_of_nat [0..<length xs]" xs] sum_sizes_lt_VArr [of xs]
    by simp
next
  case (VObj kvs)
  then show ?thesis using sum_sizes_lt_VObj [of kvs] by simp
qed simp_all

lemma sum_sizes_obj_delete_le:
  "sum_list (map (size \<circ> snd) (obj_delete kvs k)) \<le> sum_list (map (size \<circ> snd) kvs)"
  by (induction kvs) (auto simp: obj_delete_def)

lemma size_inherited_le: "size (inherited k) \<le> Suc 0"
  by (simp add: inherited_def)

lemma size_get_le: "size (get v k) \<le> size v"
proof (cases v)
  case (VObj kvs)
  show ?thesis
  proof (cases "map_of kvs k")
    case None
    then show ?thesis using VObj size_inherited_le [of k] by simp
  next
    case (Some w)
    then show ?thesis
      using VObj size_map_of_le [OF Some] sum_sizes_lt_VObj [of kvs] by simp
  qed
qed simp_all

lemma size_get_lt:
  assumes "truthy v" and "typeof_object v" and "size (inherited k) = 0"
  shows "size (get v k) < size v"
proof (cases v)
  case (VObj kvs)
  show ?thesis
  proof (cases "map_of kvs k")
    case None
    then show ?thesis using VObj assms(3) by simp
  next
    case (Some w)
    then show ?thesis
      using VObj size_map_of_le [OF Some] sum_sizes_lt_VObj [of kvs] by simp
  qed
qed (use assms in simp_all)

lemma inherited_props [simp]: "inherited (js ''props'') = VUndefined"
  by (simp add: inherited_def object_prototype_names_def js_def)

lemma sum_sizes_nodeProps_lt:
  assumes "truthy node" and "typeof_object node"
  shows "sum_list (map (size \<circ> snd) (nodeProps node)) < size node"
proof -
  have "sum_list (map (size \<circ> snd) (nodeProps node))
          \<le> sum_list (map (size \<circ> snd) (entries (get node (js ''props''))))"
    unfolding nodeProps_def by (rule sum_sizes_obj_delete_le)
  also have "\<dots> \<le> size (get node (js ''props''))"
    by (rule sum_sizes_entries_le)
  also have "\<dots> < size node"
    using assms by (rule size_get_lt) simp
  finally show ?thesis .
qed

lemma sum_sizes_flat_le: "sum_list (map size (flat xs)) \<le> sum_list (map size xs)"
proof (induction xs)
  case Nil
  then show ?case by (simp add: flat_def)
next
  case (Cons x xs)
  have "sum_list (map size (case x of VArr ys \<Rightarrow> ys | _ \<Rightarrow> [x])) \<le> size x"
    using sum_sizes_lt_VArr by (cases x) (auto dest: less_imp_le)
  then show ?case
    using Cons by (simp add: flat_def)
qed

lemma sum_sizes_unifiedChildren_lt:
  assumes "truthy node" and "typeof_object node"
  shows "sum_list (map size (flat (unifiedChildren node))) < size node"
proof -
  let ?c = "get (get node (js ''props'')) (js ''children'')"
  have "sum_list (map size (unifiedChildren node)) \<le> size ?c"
    using sum_sizes_lt_VArr
    by (cases ?c) (auto simp: unifiedChildren_def Let_def dest: less_imp_le)
  moreover have "size ?c \<le> size (get node (js ''props''))"
    by (rule size_get_le)
  moreover have "size (get node (js ''props'')) < size node"
    using assms by (rule size_get_lt) simp
  ultimately show ?thesis
    using sum_sizes_flat_le [of "unifiedChildren node"] by linarith
qed

lemma sum_sizes_componentProps_le:
  "sum_list (map (size \<circ> snd) (entries (get (VObj props) k)))
     \<le> sum_list (map (size \<circ> snd) props)"
proof (cases "map_of props k")
  case None
  then show ?thesis by (simp add: inherited_def)
next
  case (Some w)
  then show ?thesis
    using sum_sizes_entries_le [of w] size_map_of_le [OF Some] by simp
qed


text \<open>
  The nodes that \<^verbatim>\<open>serializeNode\<close> makes for an element and for the elements below it
  hold one array under \<^verbatim>\<open>childComponents\<close>, the accumulator. \<open>share acc v\<close> is such a
  node \<open>v\<close> read when the array holds \<open>acc\<close>. Among the \<^verbatim>\<open>props.children\<close> of a node
  made by \<^verbatim>\<open>serializeNode\<close>, the ones with truthy \<^verbatim>\<open>props\<close> are made by it too, with
  the same array when they have a \<^verbatim>\<open>childComponents\<close> property (a placeholder has
  none); the others are copies of what the renderer gave. A node serialized as a prop
  has an array of its own.
\<close>

lemma size_child_lt:
  assumes "get (get (VObj kvs) (js ''props'')) (js ''children'') = VArr cs" and "c \<in> set cs"
  shows "size c < size (VObj kvs)"
proof -
  have "size c \<le> sum_list (map size cs)"
    using assms(2) by (simp add: member_le_sum_list)
  also have "\<dots> < size (VArr cs)" by (rule sum_sizes_lt_VArr)
  also have "\<dots> \<le> size (get (VObj kvs) (js ''props''))"
    unfolding assms(1) [symmetric] by (rule size_get_le)
  also have "\<dots> \<le> size (VObj kvs)" by (rule size_get_le)
  finally show ?thesis .
qed

function share :: "jsval list \<Rightarrow> jsval \<Rightarrow> jsval" where
  "share acc (VObj kvs) =
     (if truthy (get (VObj kvs) (js ''props'')) \<and> js ''childComponents'' \<in> fst ` set kvs
      then VObj (obj_define
                   (case get (get (VObj kvs) (js ''props'')) (js ''children'') of
                      VArr cs \<Rightarrow>
                        obj_define kvs (js ''props'')
                          (VObj (obj_define (entries (get (VObj kvs) (js ''props'')))
                                   (js ''children'') (VArr (map (share acc) cs))))
                    | _ \<Rightarrow> kvs)
                   (js ''childComponents'') (VArr acc))
      else VObj kvs)"
| "share acc (VArr xs) = VArr xs"
| "share acc (VFun f) = VFun f"
| "share acc (VCallback t c m) = VCallback t c m"
| "share acc VUndefined = VUndefined"
| "share acc VNull = VNull"
| "share acc (VBool b) = VBool b"
| "share acc (VNum n) = VNum n"
| "share acc (VStr s) = VStr s"
  by pat_completeness auto
termination
proof (relation "measure (\<lambda>(acc, v). size v)", goal_cases)
  case 1
  show ?case by simp
next
  case (2 acc kvs cs c)
  from size_child_lt [OF 2(2) 2(3)] show ?case by simp
qed

declare share.simps(1) [simp del]

text \<open>
  \<^verbatim>\<open>serializeProps\<close>, \<^verbatim>\<open>serializeChildComponent\<close> and \<^verbatim>\<open>serializeNode\<close> of
  \<^verbatim>\<open>composeSerializationMethods\<close>. They call each other, so they are one definition:
  \<^item> \<open>serializeProps_entries\<close> is the \<^verbatim>\<open>reduce\<close> over \<^verbatim>\<open>Object.entries(props)\<close>, with
    \<open>newProps\<close> its accumulator, which starts as \<^verbatim>\<open>{}\<close>; the object it returns is
    given by its own properties, which are what \<^verbatim>\<open>serializeNode\<close> spreads into the
    props of the node and what stands for the object in the entry that
    \<^verbatim>\<open>serializeChildComponent\<close> makes;
  \<^item> \<open>serializeChildren\<close> is the \<^verbatim>\<open>map\<close> over \<^verbatim>\<open>unifiedChildren.flat()\<close>, which
    serializes a child when \<^verbatim>\<open>c?.props\<close> is truthy and copies it otherwise;
  \<^item> the \<^verbatim>\<open>childComponents\<close> array is passed in and returned, and so is the container,
    whose callback map and console the calls write to.
  A component passed as a prop is serialized into an array of its own
  (\<^verbatim>\<open>childComponents: []\<close>), which \<^verbatim>\<open>serializeProps\<close> drops; it stays reachable
  as the \<^verbatim>\<open>childComponents\<close> of the serialized prop.

  The node that \<^verbatim>\<open>serializeNode\<close> returns holds the array itself under
  \<^verbatim>\<open>childComponents\<close>, and so do the nodes that the calls for its children have
  returned. What a call returns is given as it reads when the call returns: every node
  made with the array shows the elements the array has then (\<open>share\<close>).
\<close>

abbreviation empty_object :: object where
  "empty_object \<equiv> (ObjectPrototype, [])"

function serializeProps_entries ::
  "params \<Rightarrow> jsstr option \<Rightarrow> jsstr \<Rightarrow> entries \<Rightarrow> object \<Rightarrow> container \<Rightarrow> (error + entries) \<times> container"
and serializeChildComponent ::
  "params \<Rightarrow> jsstr \<Rightarrow> entries \<Rightarrow> container \<Rightarrow> (jsval option \<times> jsval) \<times> container"
and serializeNode ::
  "params \<Rightarrow> jsval \<Rightarrow> jsval list \<Rightarrow> jsstr \<Rightarrow> container \<Rightarrow> (error + jsval) \<times> jsval list \<times> container"
and serializeChildren ::
  "params \<Rightarrow> jsval list \<Rightarrow> jsval list \<Rightarrow> jsstr \<Rightarrow> container \<Rightarrow> (error + jsval list) \<times> jsval list \<times> container"
where
  "serializeProps_entries P componentId parentId [] newProps st = (Inr (snd newProps), st)"
| "serializeProps_entries P componentId parentId ((key, v) # rest) newProps st =
     (if \<not> typeof_function v
      then (if isRendered v
            then (case serializeNode P v [] parentId st of
                    (Inl e, acc, st1) \<Rightarrow> (Inl e, st1)
                  | (Inr sv, acc, st1) \<Rightarrow>
                      (case obj_write newProps key sv of
                         Inl e \<Rightarrow> (Inl e, st1)
                       | Inr np \<Rightarrow> serializeProps_entries P componentId parentId rest np st1))
            else (case obj_write newProps key (if isProxy v then VObj (entries v) else v) of
                    Inl e \<Rightarrow> (Inl e, st)
                  | Inr np \<Rightarrow> serializeProps_entries P componentId parentId rest np st))
      else (case registerCallback componentId parentId key v newProps st of
              (Inl e, st1) \<Rightarrow> (Inl e, st1)
            | (Inr np, st1) \<Rightarrow> serializeProps_entries P componentId parentId rest np st1))"
| "serializeChildComponent P parentId props st =
     (let instanceId = get (VObj props) (js ''id'');
          src = get (VObj props) (js ''src'');
          componentProps = get (VObj props) (js ''props'');
          trust = get (VObj props) (js ''trust'');
          componentId = buildComponentId instanceId src parentId
      in case (if truthy componentProps
               then serializeProps_entries P (Some componentId) parentId (entries componentProps)
                      empty_object st
               else (Inr [], st)) of
           (Inr sp, st1) \<Rightarrow>
             ((Some (VObj [(js ''trust'', trust), (js ''props'', VObj sp), (js ''source'', src),
                           (js ''componentId'', VStr componentId)]),
               placeholder componentId), st1)
         | (Inl e, st1) \<Rightarrow>
             ((None, placeholder componentId),
              st1\<lparr>console := console st1 @
                [ConsoleWarnLoad (js ''failed to dispatch component load for '' @ parentId) e
                   componentProps]\<rparr>))"
| "serializeNode P node childComponents parentId st =
     (if \<not> truthy node \<or> \<not> typeof_object node then (Inr node, childComponents, st)
      else
        let type = get node (js ''type'');
            serializedElementType = (case type of VStr t \<Rightarrow> t | _ \<Rightarrow> []);
            props = nodeProps node
        in case bubble (unifiedChildren node) childComponents of
             (Some e, acc1) \<Rightarrow> (Inl e, acc1, st)
           | (None, acc1) \<Rightarrow>
               if typeof_function type
               then (if \<not> isWidget P type \<and> \<not> isComponent P type
                     then (Inl (Error (js ''unrecognized Component function '' @ function_name type)),
                           acc1, st)
                     else
                       let st1 = (if isWidget P type
                                  then st\<lparr>console := console st @ [ConsoleWarn widgetDeprecation]\<rparr>
                                  else st)
                       in case serializeChildComponent P parentId props st1 of
                            ((Some child, ph), st2) \<Rightarrow> (Inr ph, acc1 @ [child], st2)
                          | ((None, ph), st2) \<Rightarrow> (Inr ph, acc1, st2))
               else (case serializeProps_entries P None parentId props empty_object st of
                       (Inl e, st1) \<Rightarrow> (Inl e, acc1, st1)
                     | (Inr sp, st1) \<Rightarrow>
                         (case serializeChildren P (flat (unifiedChildren node)) acc1 parentId st1 of
                            (Inl e, acc2, st2) \<Rightarrow> (Inl e, acc2, st2)
                          | (Inr cs, acc2, st2) \<Rightarrow>
                              (Inr (VObj [(js ''type'', VStr serializedElementType),
                                          (js ''props'',
                                           VObj (obj_define sp (js ''children'')
                                                   (VArr (map (share acc2) cs)))),
                                          (js ''childComponents'', VArr acc2)]),
                               acc2, st2))))"
| "serializeChildren P [] childComponents parentId st = (Inr [], childComponents, st)"
| "serializeChildren P (c # cs) childComponents parentId st =
     (if truthy (get c (js ''props''))
      then (case serializeNode P c childComponents parentId st of
              (Inl e, acc1, st1) \<Rightarrow> (Inl e, acc1, st1)
            | (Inr r, acc1, st1) \<Rightarrow>
                (case serializeChildren P cs acc1 parentId st1 of
                   (Inl e, acc2, st2) \<Rightarrow> (Inl e, acc2, st2)
                 | (Inr rs, acc2, st2) \<Rightarrow> (Inr (r # rs), acc2, st2)))
      else (case serializeChildren P cs childComponents parentId st of
              (Inl e, acc2, st2) \<Rightarrow> (Inl e, acc2, st2)
            | (Inr rs, acc2, st2) \<Rightarrow> (Inr (c # rs), acc2, st2)))"
  by pat_completeness auto

termination
proof (relation "measures [
     (\<lambda>x. case x of
        Inl (Inl (P, cid, pid, L, np, st)) \<Rightarrow> 2 * sum_list (map (size \<circ> snd) L)
      | Inl (Inr (P, pid, props, st)) \<Rightarrow> 2 * sum_list (map (size \<circ> snd) props) + 1
      | Inr (Inl (P, node, acc, pid, st)) \<Rightarrow> 2 * size node
      | Inr (Inr (P, cs, acc, pid, st)) \<Rightarrow> 2 * sum_list (map size cs)),
     (\<lambda>x. case x of
        Inl (Inl (P, cid, pid, L, np, st)) \<Rightarrow> Suc (length L)
      | Inl (Inr (P, pid, props, st)) \<Rightarrow> 0
      | Inr (Inl (P, node, acc, pid, st)) \<Rightarrow> 0
      | Inr (Inr (P, cs, acc, pid, st)) \<Rightarrow> Suc (length cs))]", goal_cases)
  case (6 P parentId props st instanceId src componentProps trust componentId)
  show ?case
    using sum_sizes_componentProps_le [of props "js ''props''"] 6(3) by simp
next
  case (7 P node childComponents parentId st)
  then show ?case using sum_sizes_nodeProps_lt [of node] by simp
next
  case (8 P node childComponents parentId st)
  then show ?case using sum_sizes_nodeProps_lt [of node] by simp
next
  case (9 P node childComponents parentId st)
  then show ?case using sum_sizes_unifiedChildren_lt [of node] by simp
qed (simp_all del: sum_list_eq_0_iff, linarith+)


declare serializeProps_entries.simps(2) [simp del] serializeChildComponent.simps [simp del]
  serializeNode.simps [simp del] serializeChildren.simps(2) [simp del]

text \<open>
  \<^verbatim>\<open>serializeProps({ componentId, parentId, props })\<close>:
  \<^verbatim>\<open>Object.entries\<close> throws on \<^verbatim>\<open>undefined\<close> and \<^verbatim>\<open>null\<close>.
\<close>

definition serializeProps ::
  "params \<Rightarrow> jsstr option \<Rightarrow> jsstr \<Rightarrow> jsval \<Rightarrow> container \<Rightarrow> (error + entries) \<times> container"
where
  "serializeProps P componentId parentId props st =
     (if nullish props then (Inl TypeError, st)
      else serializeProps_entries P componentId parentId (entries props) empty_object st)"

section \<open>Deserializing props\<close>

text \<open>
  \<^verbatim>\<open>
  const deserializeProps = ({ componentId, props }) => {
    const { __componentcallbacks } = props;
    const componentProps = { ...props };
    delete componentProps.__componentcallbacks;
    return {
      ...componentProps,
      ...Object.entries(__componentcallbacks || {}).reduce(
        (componentCallbacks, [methodName, { __componentMethod }]) => {
          if (props[methodName]) {
            throw new Error(`'duplicate props key ${methodName} on ${componentId}'`);
          }
          componentCallbacks[methodName] = (...args) => { ... };
          return componentCallbacks;
        }, {}),
    };
  };
  \<close>
  \<open>deserializeCallbacks\<close> is the \<^verbatim>\<open>reduce\<close>, whose result is spread: its own properties
  are what counts. Binding the pattern
  \<^verbatim>\<open>{ __componentMethod }\<close> to \<^verbatim>\<open>undefined\<close> or \<^verbatim>\<open>null\<close> throws, and so does the first
  line for such a \<^verbatim>\<open>props\<close>.
\<close>

definition duplicateKeyMessage :: "jsstr \<Rightarrow> jsstr \<Rightarrow> jsstr" where
  "duplicateKeyMessage methodName componentId =
     [0x27] @ js ''duplicate props key '' @ methodName @ js '' on '' @ componentId @ [0x27]"

fun deserializeCallbacks ::
  "params \<Rightarrow> jsstr \<Rightarrow> jsval \<Rightarrow> entries \<Rightarrow> object \<Rightarrow> error + entries"
where
  "deserializeCallbacks P componentId props [] componentCallbacks = Inr (snd componentCallbacks)"
| "deserializeCallbacks P componentId props ((methodName, marker) # rest) componentCallbacks =
     (if nullish marker then Inl TypeError
      else if truthy (get props methodName)
      then Inl (Error (duplicateKeyMessage methodName componentId))
      else case obj_write componentCallbacks methodName
                  (VCallback (callbackSource P) componentId
                     (get marker (js ''__componentMethod''))) of
             Inl e \<Rightarrow> Inl e
           | Inr cc \<Rightarrow> deserializeCallbacks P componentId props rest cc)"

definition deserializeProps :: "params \<Rightarrow> jsstr \<Rightarrow> jsval \<Rightarrow> error + jsval" where
  "deserializeProps P componentId props =
     (if nullish props then Inl TypeError
      else
        let cbs = get props (js ''__componentcallbacks'');
            componentProps = obj_delete (entries props) (js ''__componentcallbacks'')
        in case deserializeCallbacks P componentId props
                  (entries (if truthy cbs then cbs else VObj [])) empty_object of
             Inl e \<Rightarrow> Inl e
           | Inr componentCallbacks \<Rightarrow> Inr (VObj (assign componentProps componentCallbacks)))"

text \<open>
  Modelled from the spec: \<^verbatim>\<open>postCallbackInvocationMessage\<close> sends a callback-invocation
  envelope upstream carrying the serialized call arguments; serializing them stores the
  function-valued ones in the callback map.
\<close>

definition postCallbackInvocationMessage ::
  "jsval list \<Rightarrow> jsstr \<Rightarrow> jsval \<Rightarrow> jsstr \<Rightarrow> jsstr \<Rightarrow> container \<Rightarrow> container"
where
  "postCallbackInvocationMessage args componentId method requestId targetId st =
     (let (sargs, cbs) = serializeArgs componentId args (callbacks st)
      in st\<lparr>callbacks := cbs,
             posted := posted st @
               [\<lparr>inv_args = sargs, inv_method = method, inv_originator = componentId,
                 inv_requestId = requestId, inv_targetId = targetId\<rparr>]\<rparr>)"

text \<open>
  The arrow function that \<^verbatim>\<open>deserializeProps\<close> stores under each method name, called
  with \<open>args\<close>; \<open>componentId\<close> and \<open>method\<close> are what it closes over.
  \<^verbatim>\<open>
  (...args) => {
    if (!parentContainerId) {
      console.error('Root Component cannot invoke method on parent');
      return;
    }
    const requestId = window.crypto.randomUUID();
    requests[requestId] = buildRequest();
    postCallbackInvocationMessage({ args, callbacks, componentId,
      method: __componentMethod, requestId, serializeArgs, targetId: parentContainerId });
    return requests[requestId].promise;
  }
  \<close>
  It returns \<^verbatim>\<open>undefined\<close> or the promise of the request it has filed.
\<close>

datatype returned = ReturnedUndefined | ReturnedPromise jsstr

definition rootRefusal :: "container \<Rightarrow> returned \<times> container" where
  "rootRefusal st =
     (ReturnedUndefined,
      st\<lparr>console := console st @
        [ConsoleError (js ''Root Component cannot invoke method on parent'')]\<rparr>)"

definition componentCallback ::
  "params \<Rightarrow> jsstr \<Rightarrow> jsval \<Rightarrow> jsval list \<Rightarrow> container \<Rightarrow> returned \<times> container"
where
  "componentCallback P componentId method args st =
     (case parentContainerId P of
        None \<Rightarrow> rootRefusal st
      | Some targetId \<Rightarrow>
          if targetId = [] then rootRefusal st
          else
            let requestId = randomUUID P (uuids_drawn st);
                st1 = st\<lparr>uuids_drawn := Suc (uuids_drawn st),
                         requests := obj_assign (requests st) requestId Pending\<rparr>;
                st2 = postCallbackInvocationMessage args componentId method requestId targetId st1
            in (ReturnedPromise requestId, st2))"

section \<open>The serializer of serialize.ts\<close>

text \<open>
  \<^verbatim>\<open>serialize.ts\<close> holds an earlier \<^verbatim>\<open>serializeProps\<close> and \<^verbatim>\<open>serializeNode\<close>, which
  take their collaborators as arguments: the set of builtin components (a function
  \<^verbatim>\<open>({ children, props }) => ({ props, type })\<close> under each name), the name of the root
  (fragment) function of the renderer and \<^verbatim>\<open>decodeJsonString\<close>. \<open>invoke f x\<close> is the
  call \<^verbatim>\<open>f(x)\<close> of a component function, which returns a node or throws.
  \<^verbatim>\<open>serializeNode\<close> is given \<^verbatim>\<open>serializeProps\<close> and hands it on; it is taken to be the
  one of this file.
\<close>

record legacy =
  builtinComponents :: "jsstr \<Rightarrow> (jsval \<Rightarrow> error + jsval) option"
  preactRootComponentName :: jsstr
  decodeJsonString_param :: "jsstr \<Rightarrow> jsstr"
  invoke :: "jsval \<Rightarrow> jsval \<Rightarrow> error + jsval"

text \<open>
  The builtin branch of \<^verbatim>\<open>serializeNode\<close>, which rewrites \<^verbatim>\<open>serializedElementType\<close>,
  \<^verbatim>\<open>props\<close> and \<^verbatim>\<open>unifiedChildren\<close>:
  \<^verbatim>\<open>
  const builtin = builtinComponents[component];
  ({ props, type: serializedElementType } = builtin({ children: unifiedChildren, props }));
  unifiedChildren = props.children || [];
  \<close>
  Reading \<^verbatim>\<open>props\<close> of a result that is \<^verbatim>\<open>undefined\<close> or \<^verbatim>\<open>null\<close> throws, and so does
  reading \<^verbatim>\<open>children\<close> of such a \<^verbatim>\<open>props\<close>.
\<close>

definition builtinParts ::
  "(jsval \<Rightarrow> error + jsval) \<Rightarrow> jsval \<Rightarrow> error + jsval \<times> jsval \<times> jsval"
where
  "builtinParts builtin node =
     (case builtin (VObj [(js ''children'', VArr (unifiedChildren node)),
                          (js ''props'', VObj (nodeProps node))]) of
        Inl e \<Rightarrow> Inl e
      | Inr r \<Rightarrow>
          if nullish r \<or> nullish (get r (js ''props'')) then Inl TypeError
          else Inr (get r (js ''type''), get r (js ''props''),
                    (let c = get (get r (js ''props'')) (js ''children'')
                     in if truthy c then c else VArr [])))"

text \<open>
  The argument of the call of a pass-through function:
  \<^verbatim>\<open>{ ...props, __bweMeta: { ...props?.__bweMeta, componentId }, id: 'dom-' + componentId }\<close>.
\<close>

definition passThroughProps :: "entries \<Rightarrow> jsstr \<Rightarrow> jsval" where
  "passThroughProps props componentId =
     VObj (obj_define
       (obj_define props (js ''__bweMeta'')
          (VObj (obj_define (entries (get (VObj props) (js ''__bweMeta''))) (js ''componentId'')
                   (VStr componentId))))
       (js ''id'') (VStr (js ''dom-'' @ componentId)))"

text \<open>
  A pass-through function can return a node that calls for another call, without end;
  the first argument bounds the depth of the calls of \<^verbatim>\<open>serializeNode\<close>, and \<open>None\<close> is
  a serialization that has not returned within the bound. \<open>serializeElement_legacy\<close> is
  the last \<^verbatim>\<open>return\<close> of \<^verbatim>\<open>serializeNode\<close>, which the host, root and builtin branches
  reach with their \<^verbatim>\<open>serializedElementType\<close>, \<^verbatim>\<open>props\<close> and \<^verbatim>\<open>unifiedChildren\<close>;
  \<^verbatim>\<open>flat\<close> throws on what is no array.
\<close>

function serializeProps_entries_legacy ::
  "legacy \<Rightarrow> nat \<Rightarrow> jsstr option \<Rightarrow> jsstr \<Rightarrow> entries \<Rightarrow> object \<Rightarrow> container \<Rightarrow>
   ((error + entries) \<times> container) option"
and serializeElement_legacy ::
  "legacy \<Rightarrow> nat \<Rightarrow> jsval \<Rightarrow> jsval \<Rightarrow> jsval \<Rightarrow> jsval list \<Rightarrow> jsstr \<Rightarrow> container \<Rightarrow>
   ((error + jsval) \<times> jsval list \<times> container) option"
and serializeNode_legacy ::
  "legacy \<Rightarrow> nat \<Rightarrow> jsval \<Rightarrow> jsval list \<Rightarrow> jsstr \<Rightarrow> container \<Rightarrow>
   ((error + jsval) \<times> jsval list \<times> container) option"
and serializeChildren_legacy ::
  "legacy \<Rightarrow> nat \<Rightarrow> jsval list \<Rightarrow> jsval list \<Rightarrow> jsstr \<Rightarrow> container \<Rightarrow>
   ((error + jsval list) \<times> jsval list \<times> container) option"
where
  "serializeProps_entries_legacy L n componentId parentId [] newProps st =
     Some (Inr (snd newProps), st)"
| "serializeProps_entries_legacy L n componentId parentId ((key, v) # rest) newProps st =
     (if \<not> typeof_function v
      then (if isRendered v
            then (case serializeNode_legacy L n v [] parentId st of
                    None \<Rightarrow> None
                  | Some (Inl e, acc, st1) \<Rightarrow> Some (Inl e, st1)
                  | Some (Inr sv, acc, st1) \<Rightarrow>
                      (case obj_write newProps key sv of
                         Inl e \<Rightarrow> Some (Inl e, st1)
                       | Inr np \<Rightarrow>
                           serializeProps_entries_legacy L n componentId parentId rest np st1))
            else (case obj_write newProps key
                         (case v of
                            VStr s \<Rightarrow> VStr (decodeJsonString_param L s)
                          | _ \<Rightarrow> if isProxy v then VObj (entries v) else v) of
                    Inl e \<Rightarrow> Some (Inl e, st)
                  | Inr np \<Rightarrow>
                      serializeProps_entries_legacy L n componentId parentId rest np st))
      else (case registerCallback componentId parentId key v newProps st of
              (Inl e, st1) \<Rightarrow> Some (Inl e, st1)
            | (Inr np, st1) \<Rightarrow>
                serializeProps_entries_legacy L n componentId parentId rest np st1))"
| "serializeElement_legacy L n serializedElementType props children childComponents parentId st =
     (case serializeProps_entries_legacy L n None parentId (entries props) empty_object st of
        None \<Rightarrow> None
      | Some (Inl e, st1) \<Rightarrow> Some (Inl e, childComponents, st1)
      | Some (Inr sp, st1) \<Rightarrow>
          (case children of
             VArr xs \<Rightarrow>
               (case serializeChildren_legacy L n (flat xs) childComponents parentId st1 of
                  None \<Rightarrow> None
                | Some (Inl e, acc2, st2) \<Rightarrow> Some (Inl e, acc2, st2)
                | Some (Inr cs, acc2, st2) \<Rightarrow>
                    Some (Inr (VObj [(js ''type'', serializedElementType),
                                     (js ''props'',
                                      VObj (obj_define sp (js ''children'')
                                              (VArr (map (share acc2) cs)))),
                                     (js ''childComponents'', VArr acc2)]),
                          acc2, st2))
           | _ \<Rightarrow> Some (Inl TypeError, childComponents, st1)))"
| "serializeNode_legacy L 0 node childComponents parentId st = None"
| "serializeNode_legacy L (Suc n) node childComponents parentId st =
     (if \<not> truthy node \<or> \<not> typeof_object node then Some (Inr node, childComponents, st)
      else
        let type = get node (js ''type'');
            props = nodeProps node
        in case bubble (unifiedChildren node) childComponents of
             (Some e, acc1) \<Rightarrow> Some (Inl e, acc1, st)
           | (None, acc1) \<Rightarrow>
               if typeof_function type
               then
                 (if function_name type = preactRootComponentName L
                  then serializeElement_legacy L n (VStr (js ''div'')) (VObj props)
                         (VArr (unifiedChildren node)) acc1 parentId st
                  else case builtinComponents L (function_name type) of
                    Some builtin \<Rightarrow>
                      (case builtinParts builtin node of
                         Inl e \<Rightarrow> Some (Inl e, acc1, st)
                       | Inr (serializedElementType, props', children') \<Rightarrow>
                           serializeElement_legacy L n serializedElementType props' children'
                             acc1 parentId st)
                  | None \<Rightarrow>
                      (let componentId = buildComponentId (get (VObj props) (js ''id''))
                                           (get (VObj props) (js ''src'')) parentId
                       in if function_name type = js ''Widget''
                          then
                            (let componentProps = get (VObj props) (js ''props'')
                             in case (if truthy componentProps
                                      then serializeProps_entries_legacy L n (Some componentId)
                                             parentId (entries componentProps) empty_object st
                                      else Some (Inr [], st)) of
                                  None \<Rightarrow> None
                                | Some (Inr sp, st1) \<Rightarrow>
                                    Some (Inr (placeholder componentId),
                                          acc1 @
                                          [VObj [(js ''trust'', get (VObj props) (js ''trust'')),
                                                 (js ''props'', VObj sp),
                                                 (js ''source'', get (VObj props) (js ''src'')),
                                                 (js ''componentId'', VStr componentId)]],
                                          st1)
                                | Some (Inl e, st1) \<Rightarrow>
                                    Some (Inr (placeholder componentId), acc1,
                                          st1\<lparr>console := console st1 @
                                            [ConsoleWarnLoad
                                               (js ''failed to dispatch component load for '' @
                                                parentId)
                                               e componentProps]\<rparr>))
                          else
                            (case invoke L type (passThroughProps props componentId) of
                               Inl e \<Rightarrow> Some (Inl e, acc1, st)
                             | Inr rendered \<Rightarrow>
                                 serializeNode_legacy L n rendered acc1 componentId st)))
               else serializeElement_legacy L n
                      (VStr (if \<not> truthy type then js ''div''
                             else case type of VStr t \<Rightarrow> t | _ \<Rightarrow> []))
                      (VObj props) (VArr (unifiedChildren node)) acc1 parentId st)"
| "serializeChildren_legacy L n [] childComponents parentId st = Some (Inr [], childComponents, st)"
| "serializeChildren_legacy L n (c # cs) childComponents parentId st =
     (if truthy (get c (js ''props''))
      then (case serializeNode_legacy L n c childComponents parentId st of
              None \<Rightarrow> None
            | Some (Inl e, acc1, st1) \<Rightarrow> Some (Inl e, acc1, st1)
            | Some (Inr r, acc1, st1) \<Rightarrow>
                (case serializeChildren_legacy L n cs acc1 parentId st1 of
                   None \<Rightarrow> None
                 | Some (Inl e, acc2, st2) \<Rightarrow> Some (Inl e, acc2, st2)
                 | Some (Inr rs, acc2, st2) \<Rightarrow> Some (Inr (r # rs), acc2, st2)))
      else (case serializeChildren_legacy L n cs childComponents parentId st of
              None \<Rightarrow> None
            | Some (Inl e, acc2, st2) \<Rightarrow> Some (Inl e, acc2, st2)
            | Some (Inr rs, acc2, st2) \<Rightarrow> Some (Inr (c # rs), acc2, st2)))"
  by pat_completeness auto
termination
  by (relation "measures [
     (\<lambda>x. case x of
        Inl (Inl (L, n, cid, pid, es, np, st)) \<Rightarrow> n
      | Inl (Inr (L, n, t, p, c, acc, pid, st)) \<Rightarrow> n
      | Inr (Inl (L, n, node, acc, pid, st)) \<Rightarrow> n
      | Inr (Inr (L, n, cs, acc, pid, st)) \<Rightarrow> n),
     (\<lambda>x. case x of
        Inl (Inl (L, n, cid, pid, es, np, st)) \<Rightarrow> Suc 0
      | Inl (Inr (L, n, t, p, c, acc, pid, st)) \<Rightarrow> 2
      | Inr (Inl (L, n, node, acc, pid, st)) \<Rightarrow> 0
      | Inr (Inr (L, n, cs, acc, pid, st)) \<Rightarrow> Suc 0),
     (\<lambda>x. case x of
        Inl (Inl (L, n, cid, pid, es, np, st)) \<Rightarrow> length es
      | Inl (Inr (L, n, t, p, c, acc, pid, st)) \<Rightarrow> 0
      | Inr (Inl (L, n, node, acc, pid, st)) \<Rightarrow> 0
      | Inr (Inr (L, n, cs, acc, pid, st)) \<Rightarrow> length cs)]") auto

declare serializeProps_entries_legacy.simps(2) [simp del] serializeElement_legacy.simps [simp del]
  serializeNode_legacy.simps(2) [simp del] serializeChildren_legacy.simps(2) [simp del]

text \<open>
  \<^verbatim>\<open>serializeProps\<close> of \<^verbatim>\<open>serialize.ts\<close>, the \<^verbatim>\<open>reduce\<close> over
  \<^verbatim>\<open>Object.entries(props)\<close>: as above but for a string, which it hands to
  \<^verbatim>\<open>decodeJsonString\<close>.
\<close>

definition serializeProps_legacy ::
  "legacy \<Rightarrow> nat \<Rightarrow> jsstr option \<Rightarrow> jsstr \<Rightarrow> jsval \<Rightarrow> container \<Rightarrow>
   ((error + entries) \<times> container) option"
where
  "serializeProps_legacy L n componentId parentId props st =
     (if nullish props then Some (Inl TypeError, st)
      else serializeProps_entries_legacy L n componentId parentId (entries props) empty_object st)"

section \<open>Fuel of the serializer of serialize.ts\<close>

text \<open>
  The fuel only bounds the depth of the recursion: a result obtained with some fuel is the
  result with any larger fuel, so \<open>None\<close> stands for a run that did not finish within the
  bound and never for a value the code returns.
\<close>

lemma legacy_fuel_mono:
  "serializeProps_entries_legacy L n componentId parentId es newProps st = Some r1 \<Longrightarrow>
     serializeProps_entries_legacy L (Suc n) componentId parentId es newProps st = Some r1"
  "serializeElement_legacy L n ty props children acc parentId st = Some r2 \<Longrightarrow>
     serializeElement_legacy L (Suc n) ty props children acc parentId st = Some r2"
  "serializeNode_legacy L n node acc parentId st = Some r2 \<Longrightarrow>
     serializeNode_legacy L (Suc n) node acc parentId st = Some r2"
  "serializeChildren_legacy L n cs acc parentId st = Some r3 \<Longrightarrow>
     serializeChildren_legacy L (Suc n) cs acc parentId st = Some r3"
proof (induction L n componentId parentId es newProps st
    and L n ty props children acc parentId st
    and L n node acc parentId st
    and L n cs acc parentId st
    arbitrary: r1 and r2 and r2 and r3
    rule: serializeProps_entries_legacy_serializeElement_legacy_serializeNode_legacy_serializeChildren_legacy.induct)
  case (1 L n componentId parentId newProps st)
  then show ?case by simp
next
  case (2 L n componentId parentId key v rest newProps st)
  note unfold = serializeProps_entries_legacy.simps(2)
  show ?case
  proof (cases "typeof_function v")
    case True
    obtain x y where reg: "registerCallback componentId parentId key v newProps st = (x, y)"
      by force
    show ?thesis
    proof (cases x)
      case (Inl e)
      from "2.prems" have "r1 = (Inl e, y)" by (simp add: unfold True reg Inl)
      then show ?thesis by (simp add: unfold True reg Inl)
    next
      case (Inr b)
      from "2.prems" have
        "serializeProps_entries_legacy L n componentId parentId rest b y = Some r1"
        by (simp add: unfold True reg Inr)
      then have "serializeProps_entries_legacy L (Suc n) componentId parentId rest b y = Some r1"
        using "2.IH"(4) [OF _ reg [symmetric] Inr] True by simp
      then show ?thesis by (simp add: unfold True reg Inr)
    qed
  next
    case False
    show ?thesis
    proof (cases "isRendered v")
      case r: False
      let ?w = "case v of VStr s \<Rightarrow> VStr (decodeJsonString_param L s)
                | _ \<Rightarrow> if isProxy v then VObj (entries v) else v"
      show ?thesis
      proof (cases "obj_write newProps key ?w")
        case (Inl e)
        from "2.prems" have "r1 = (Inl e, st)" by (simp add: unfold False r Inl)
        then show ?thesis by (simp add: unfold False r Inl)
      next
        case (Inr np)
        from "2.prems" have
          "serializeProps_entries_legacy L n componentId parentId rest np st = Some r1"
          by (simp add: unfold False r Inr)
        then have "serializeProps_entries_legacy L (Suc n) componentId parentId rest np st
            = Some r1"
          by (rule "2.IH"(3) [OF False r Inr])
        then show ?thesis by (simp add: unfold False r Inr)
      qed
    next
      case r: True
      from False r "2.prems" obtain x2 where
        node: "serializeNode_legacy L n v [] parentId st = Some x2"
        by (auto simp: unfold split: option.splits)
      then have node': "serializeNode_legacy L (Suc n) v [] parentId st = Some x2"
        using "2.IH"(1) False r by simp
      obtain x xa ya where x2: "x2 = (x, xa, ya)" by (cases x2)
      show ?thesis
      proof (cases x)
        case (Inl e)
        from "2.prems" have "r1 = (Inl e, ya)" by (simp add: unfold False r node x2 Inl)
        then show ?thesis by (simp add: unfold False r node' x2 Inl)
      next
        case b: (Inr b)
        show ?thesis
        proof (cases "obj_write newProps key b")
          case (Inl e)
          from "2.prems" have "r1 = (Inl e, ya)" by (simp add: unfold False r node x2 b Inl)
          then show ?thesis by (simp add: unfold False r node' x2 b Inl)
        next
          case (Inr np)
          from "2.prems" have
            "serializeProps_entries_legacy L n componentId parentId rest np ya = Some r1"
            by (simp add: unfold False r node x2 b Inr)
          then have "serializeProps_entries_legacy L (Suc n) componentId parentId rest np ya
              = Some r1"
            using "2.IH"(2) [OF False r node, of x "(xa, ya)" b xa ya np] x2 b Inr by simp
          then show ?thesis by (simp add: unfold False r node' x2 b Inr)
        qed
      qed
    qed
  qed
next
  case (3 L n serializedElementType props children childComponents parentId st)
  note unfold = serializeElement_legacy.simps
  from "3.prems" obtain x2 where
    p: "serializeProps_entries_legacy L n None parentId (entries props) empty_object st = Some x2"
    by (subst (asm) unfold) (auto split: option.splits)
  then have p': "serializeProps_entries_legacy L (Suc n) None parentId (entries props) empty_object st = Some x2"
    by (rule "3.IH"(1))
  obtain x y where x2: "x2 = (x, y)" by (cases x2)
  show ?case
  proof (cases x)
    case (Inl e)
    with p p' x2 "3.prems" show ?thesis
      by (subst unfold, subst (asm) unfold) simp
  next
    case (Inr b)
    show ?thesis
    proof (cases "\<exists>xs. children = VArr xs")
      case False
      with Inr p p' x2 "3.prems" show ?thesis
        by (subst unfold, subst (asm) unfold) (auto split: jsval.splits)
    next
      case True
      then obtain xs where xs: "children = VArr xs" by blast
      from Inr p x2 xs "3.prems" obtain x3 where
        c: "serializeChildren_legacy L n (flat xs) childComponents parentId y = Some x3"
        by (subst (asm) unfold) (auto split: option.splits)
      then have c': "serializeChildren_legacy L (Suc n) (flat xs) childComponents parentId y = Some x3"
        using "3.IH"(2) [OF p, of x y b xs] x2 Inr xs by simp
      from Inr p p' x2 xs c c' "3.prems" show ?thesis
        by (subst unfold, subst (asm) unfold) simp
    qed
  qed
next
  case (4 L node childComponents parentId st)
  then show ?case by simp
next
  case (5 L n node childComponents parentId st)
  note unfold = serializeNode_legacy.simps(2)
  let ?ty = "get node (js ''type'')"
  let ?props = "nodeProps node"
  show ?case
  proof (cases "\<not> truthy node \<or> \<not> typeof_object node")
    case True
    from "5.prems" have "Some (Inr node, childComponents, st) = Some r2"
      by (subst (asm) unfold) (simp only: if_P [OF True])
    then show ?thesis
      by (subst unfold) (simp only: if_P [OF True])
  next
    case c0: False
    then have c: "truthy node" "typeof_object node"
      by simp_all
    obtain xb y where bub: "bubble (unifiedChildren node) childComponents = (xb, y)"
      by force
    show ?thesis
    proof (cases xb)
      case (Some e)
      from "5.prems" have "r2 = (Inl e, y, st)"
        by (subst (asm) unfold) (simp add: c bub Some Let_def)
      then show ?thesis
        by (subst unfold) (simp add: c bub Some Let_def)
    next
      case None
      show ?thesis
      proof (cases "typeof_function ?ty")
        case f: False
        from "5.prems" have "serializeElement_legacy L n
            (VStr (if \<not> truthy ?ty then js ''div''
                   else case ?ty of VStr t \<Rightarrow> t | _ \<Rightarrow> []))
            (VObj ?props) (VArr (unifiedChildren node)) y parentId st = Some r2"
          by (subst (asm) unfold) (simp add: c bub None f Let_def)
        then have "serializeElement_legacy L (Suc n)
            (VStr (if \<not> truthy ?ty then js ''div''
                   else case ?ty of VStr t \<Rightarrow> t | _ \<Rightarrow> []))
            (VObj ?props) (VArr (unifiedChildren node)) y parentId st = Some r2"
          by (rule "5.IH"(5) [OF c0 refl refl bub [symmetric] None f])
        then show ?thesis
          by (subst unfold) (simp add: c bub None f Let_def)
      next
        case f: True
        show ?thesis
        proof (cases "function_name ?ty = preactRootComponentName L")
          case root: True
          from "5.prems" have "serializeElement_legacy L n (VStr (js ''div''))
              (VObj ?props) (VArr (unifiedChildren node)) y parentId st = Some r2"
            by (subst (asm) unfold) (simp add: c bub None f root Let_def)
          then have "serializeElement_legacy L (Suc n) (VStr (js ''div''))
              (VObj ?props) (VArr (unifiedChildren node)) y parentId st = Some r2"
            by (rule "5.IH"(1) [OF c0 refl refl bub [symmetric] None f root])
          then show ?thesis
            by (subst unfold) (simp add: c bub None f root Let_def)
        next
          case root: False
          show ?thesis
          proof (cases "builtinComponents L (function_name ?ty)")
            case b: (Some builtin)
            show ?thesis
            proof (cases "builtinParts builtin node")
              case (Inl e)
              from "5.prems" have "r2 = (Inl e, y, st)"
                by (subst (asm) unfold) (simp add: c bub None f root b Inl Let_def)
              then show ?thesis
                by (subst unfold) (simp add: c bub None f root b Inl Let_def)
            next
              case (Inr parts)
              obtain t p ch where parts: "parts = (t, p, ch)"
                by (cases parts)
              from "5.prems" have
                "serializeElement_legacy L n t p ch y parentId st = Some r2"
                by (subst (asm) unfold) (simp add: c bub None f root b Inr parts Let_def)
              then have "serializeElement_legacy L (Suc n) t p ch y parentId st = Some r2"
                using "5.IH"(4) [OF c0 refl refl bub [symmetric] None f root b Inr,
                    of t "(p, ch)" p ch] parts
                by simp
              then show ?thesis
                by (subst unfold) (simp add: c bub None f root b Inr parts Let_def)
            qed
          next
            case b: None
            let ?cid = "buildComponentId (get (VObj ?props) (js ''id''))
                          (get (VObj ?props) (js ''src'')) parentId"
            show ?thesis
            proof (cases "function_name ?ty = js ''Widget''")
              case w: False
              show ?thesis
              proof (cases "invoke L ?ty (passThroughProps ?props ?cid)")
                case (Inl e)
                from "5.prems" have "r2 = (Inl e, y, st)"
                  by (subst (asm) unfold) (simp add: c bub None f root b w Inl Let_def del: get.simps)
                then show ?thesis
                  by (subst unfold) (simp add: c bub None f root b w Inl Let_def del: get.simps)
              next
                case (Inr rendered)
                from "5.prems" have
                  "serializeNode_legacy L n rendered y ?cid st = Some r2"
                  by (subst (asm) unfold) (simp add: c bub None f root b w Inr Let_def del: get.simps)
                then have "serializeNode_legacy L (Suc n) rendered y ?cid st = Some r2"
                  by (rule "5.IH"(3) [OF c0 refl refl bub [symmetric] None f root b refl w Inr])
                then show ?thesis
                  by (subst unfold) (simp add: c bub None f root b w Inr Let_def del: get.simps)
              qed
            next
              case w: True
              from root b w have rw: "js ''Widget'' \<noteq> preactRootComponentName L"
                and bw: "builtinComponents L (js ''Widget'') = None"
                by simp_all
              let ?cp = "get (VObj ?props) (js ''props'')"
              show ?thesis
              proof (cases "truthy ?cp")
                case t: False
                from "5.prems" show ?thesis
                  by (subst unfold, subst (asm) unfold)
                    (simp add: c bub None f rw bw w t Let_def del: get.simps)
              next
                case t: True
                from "5.prems" obtain x2 where
                  p: "serializeProps_entries_legacy L n (Some ?cid) parentId (entries ?cp) empty_object st
                        = Some x2"
                  by (subst (asm) unfold)
                    (auto simp: c bub None f rw bw w t Let_def simp del: get.simps split: option.splits)
                then have p': "serializeProps_entries_legacy L (Suc n) (Some ?cid) parentId
                    (entries ?cp) empty_object st = Some x2"
                  by (rule "5.IH"(2) [OF c0 refl refl bub [symmetric] None f root b refl w refl t])
                from "5.prems" show ?thesis
                  by (subst unfold, subst (asm) unfold)
                    (simp add: c bub None f rw bw w t p p' Let_def del: get.simps)
              qed
            qed
          qed
        qed
      qed
    qed
  qed
next
  case (6 L n childComponents parentId st)
  then show ?case by simp
next
  case (7 L n c cs childComponents parentId st)
  note unfold = serializeChildren_legacy.simps(2)
  show ?case
  proof (cases "truthy (get c (js ''props''))")
    case False
    from False "7.prems" obtain x3 where
      c: "serializeChildren_legacy L n cs childComponents parentId st = Some x3"
      by (auto simp: unfold split: option.splits)
    then have "serializeChildren_legacy L (Suc n) cs childComponents parentId st = Some x3"
      using "7.IH"(3) False by simp
    with False c "7.prems" show ?thesis by (simp add: unfold)
  next
    case True
    from True "7.prems" obtain x2 where
      node: "serializeNode_legacy L n c childComponents parentId st = Some x2"
      by (auto simp: unfold split: option.splits)
    then have node': "serializeNode_legacy L (Suc n) c childComponents parentId st = Some x2"
      using "7.IH"(1) True by simp
    obtain x xa ya where x2: "x2 = (x, xa, ya)" by (cases x2)
    show ?thesis
    proof (cases x)
      case (Inl e)
      with True node node' x2 "7.prems" show ?thesis by (simp add: unfold)
    next
      case (Inr b)
      with True node x2 "7.prems" obtain x3 where
        c: "serializeChildren_legacy L n cs xa parentId ya = Some x3"
        by (auto simp: unfold split: option.splits)
      then have "serializeChildren_legacy L (Suc n) cs xa parentId ya = Some x3"
        using "7.IH"(2) [OF True node, of x "(xa, ya)" b xa ya] x2 Inr by simp
      with True node node' x2 Inr c "7.prems" show ?thesis by (simp add: unfold)
    qed
  qed
qed

lemma serializeNode_legacy_fuel_le:
  assumes "serializeNode_legacy L n node acc parentId st = Some r" and "n \<le> m"
  shows "serializeNode_legacy L m node acc parentId st = Some r"
proof -
  have "serializeNode_legacy L (n + k) node acc parentId st = Some r" for k
    by (induction k) (simp_all add: assms(1) legacy_fuel_mono(3))
  from this [of "m - n"] assms(2) show ?thesis
    by simp
qed

section \<open>Round trip of the escaping transform\<close>

lemma replace_unit_Nil_iff: "replace_unit c d s = [] \<longleftrightarrow> s = []"
  by (simp add: replace_unit_def)

text \<open>
  C8 (as stated): for every string that contains a newline or a tab, decoding the
  encoded string gives the string back. It fails on a string that holds a newline and
  already holds U+2063: both come back as newlines.
\<close>

theorem C8_roundtrip_counterexample:
  "0x0A \<in> set [0x0A, 0x2063 :: 16 word] \<and>
   decodeJsonString (encodeJsonString [0x0A, 0x2063]) = [0x0A, 0x0A] \<and>
   decodeJsonString (encodeJsonString [0x0A, 0x2063]) \<noteq> [0x0A, 0x2063]"
  by (simp add: encodeJsonString_def decodeJsonString_def replace_unit_def)

text \<open>
  C8 (amended): for every string that contains neither U+2063 nor U+2064, with or
  without newlines and tabs, decoding the encoded string gives the string back.
\<close>

theorem C8_roundtrip:
  assumes "0x2063 \<notin> set s" and "0x2064 \<notin> set s"
  shows "decodeJsonString (encodeJsonString s) = s"
proof (cases "s = []")
  case True
  then show ?thesis by (simp add: encodeJsonString_def decodeJsonString_def)
next
  case False
  have "replace_unit 0x2064 0x09 (replace_unit 0x2063 0x0A
          (replace_unit 0x09 0x2064 (replace_unit 0x0A 0x2063 s))) = s"
    using assms by (induction s) (auto simp: replace_unit_def)
  then show ?thesis
    using False by (simp add: encodeJsonString_def decodeJsonString_def replace_unit_Nil_iff)
qed

theorem C8_roundtrip_witness:
  "0x2063 \<notin> set [0x61, 0x0A, 0x62, 0x09 :: 16 word] \<and>
   0x2064 \<notin> set [0x61, 0x0A, 0x62, 0x09 :: 16 word] \<and>
   encodeJsonString [0x61, 0x0A, 0x62, 0x09] = [0x61, 0x2063, 0x62, 0x2064] \<and>
   decodeJsonString (encodeJsonString [0x61, 0x0A, 0x62, 0x09]) = [0x61, 0x0A, 0x62, 0x09]"
proof -
  have a: "0x2063 \<notin> set [0x61, 0x0A, 0x62, 0x09 :: 16 word]" by simp
  have b: "0x2064 \<notin> set [0x61, 0x0A, 0x62, 0x09 :: 16 word]" by simp
  have c: "encodeJsonString [0x61, 0x0A, 0x62, 0x09] = [0x61, 0x2063, 0x62, 0x2064]"
    by (simp add: encodeJsonString_def replace_unit_def)
  show ?thesis using a b c C8_roundtrip [OF a b] by simp
qed

section \<open>Component identifiers are not injective\<close>

lemma buildComponentId_strings:
  "buildComponentId (VStr i) (VStr p) q = p @ [0x23, 0x23] @ i @ [0x23, 0x23] @ q"
  by (simp add: buildComponentId_def js_join_def optional_toString_def js_def)

lemma split_at_first:
  "c \<notin> set a \<Longrightarrow> c \<notin> set a' \<Longrightarrow> a @ c # r = a' @ c # r' \<Longrightarrow> a = a' \<and> r = r'"
proof (induction a arbitrary: a')
  case Nil
  then show ?case by (cases a') auto
next
  case (Cons x a)
  then show ?case by (cases a') auto
qed

text \<open>
  C3 (as stated): equal inputs give the same id, and inputs that differ in one component
  give different ids. The first half holds of any function. The second fails: a missing
  \<^verbatim>\<open>instanceId\<close> and an empty one give the same id, and a \<^verbatim>\<open>##\<close> inside a component
  moves the boundary between two of them.
\<close>

theorem C3_buildComponentId_counterexample:
  "buildComponentId VUndefined (VStr (js ''a'')) (js ''p'') = js ''a####p'' \<and>
   buildComponentId (VStr []) (VStr (js ''a'')) (js ''p'') = js ''a####p'' \<and>
   VUndefined \<noteq> VStr [] \<and>
   buildComponentId (VStr (js ''x'')) (VStr (js ''a'')) (js ''y##p'') = js ''a##x##y##p'' \<and>
   buildComponentId (VStr (js ''x##y'')) (VStr (js ''a'')) (js ''p'') = js ''a##x##y##p'' \<and>
   js ''y##p'' \<noteq> js ''p''"
  by (simp add: buildComponentId_def js_join_def optional_toString_def js_def)

text \<open>
  C3 (amended): on triples of strings whose \<^verbatim>\<open>componentPath\<close> and \<^verbatim>\<open>instanceId\<close>
  hold no \<^verbatim>\<open>#\<close>, two ids are equal exactly when the triples are.
\<close>

theorem C3_buildComponentId_injective:
  assumes "0x23 \<notin> set p" and "0x23 \<notin> set i" and "0x23 \<notin> set p'" and "0x23 \<notin> set i'"
  shows "buildComponentId (VStr i) (VStr p) q = buildComponentId (VStr i') (VStr p') q'
           \<longleftrightarrow> i = i' \<and> p = p' \<and> q = q'"
proof
  assume eq: "buildComponentId (VStr i) (VStr p) q = buildComponentId (VStr i') (VStr p') q'"
  then have "p @ 0x23 # (0x23 # i @ [0x23, 0x23] @ q) = p' @ 0x23 # (0x23 # i' @ [0x23, 0x23] @ q')"
    by (simp add: buildComponentId_strings)
  then have p: "p = p' \<and> 0x23 # i @ [0x23, 0x23] @ q = 0x23 # i' @ [0x23, 0x23] @ q'"
    by (rule split_at_first [OF assms(1) assms(3)])
  then have "i @ 0x23 # (0x23 # q) = i' @ 0x23 # (0x23 # q')"
    by simp
  then have "i = i' \<and> 0x23 # q = 0x23 # q'"
    by (rule split_at_first [OF assms(2) assms(4)])
  with p show "i = i' \<and> p = p' \<and> q = q'" by simp
next
  assume "i = i' \<and> p = p' \<and> q = q'"
  then show "buildComponentId (VStr i) (VStr p) q = buildComponentId (VStr i') (VStr p') q'"
    by simp
qed

theorem C3_buildComponentId_witness:
  "buildComponentId (VStr (js ''x'')) (VStr (js ''a.near/widget/Child'')) (js ''root'')
     = js ''a.near/widget/Child##x##root'' \<and>
   buildComponentId (VStr (js ''x'')) (VStr (js ''a.near/widget/Child'')) (js ''root'')
     \<noteq> buildComponentId (VStr (js ''y'')) (VStr (js ''a.near/widget/Child'')) (js ''root'')"
proof -
  have a: "0x23 \<notin> set (js ''a.near/widget/Child'')" and b: "0x23 \<notin> set (js ''x'')"
    and c: "0x23 \<notin> set (js ''y'')"
    by (simp_all add: js_def)
  have "js ''x'' \<noteq> js ''y''" by (simp add: js_def)
  then show ?thesis
    using C3_buildComponentId_injective [OF a b a c, of "js ''root''" "js ''root''"]
    by (simp add: buildComponentId_strings) (simp add: js_def)
qed

section \<open>Property writes on objects\<close>

lemma map_of_insert_index:
  "k \<notin> fst ` set kvs \<Longrightarrow> map_of (insert_index i k v kvs) = (map_of kvs)(k \<mapsto> v)"
proof (induction kvs)
  case Nil
  then show ?case by simp
next
  case (Cons a kvs)
  obtain k' v' where a: "a = (k', v')" by (cases a)
  from Cons.prems have ne: "k \<noteq> k'" and notin: "k \<notin> fst ` set kvs"
    by (auto simp: a)
  show ?case
    using Cons.IH [OF notin] ne by (auto simp: a fun_upd_twist split: option.splits)
qed

lemma map_of_replace:
  "k \<in> fst ` set kvs \<Longrightarrow>
   map_of (map (\<lambda>(k', v'). if k' = k then (k', v) else (k', v')) kvs) = (map_of kvs)(k \<mapsto> v)"
proof (induction kvs)
  case Nil
  then show ?case by simp
next
  case (Cons a kvs)
  obtain k' v' where a: "a = (k', v')" by (cases a)
  show ?case
  proof (cases "k \<in> fst ` set kvs")
    case True
    then show ?thesis using Cons.IH by (auto simp: a)
  next
    case False
    then have "map (\<lambda>(k', v'). if k' = k then (k', v) else (k', v')) kvs = kvs"
      by (induction kvs) auto
    with False Cons.prems show ?thesis by (auto simp: a)
  qed
qed

lemma map_of_obj_define: "map_of (obj_define kvs k v) = (map_of kvs)(k \<mapsto> v)"
proof (cases "k \<in> fst ` set kvs")
  case True
  then show ?thesis by (simp add: obj_define_def map_of_replace)
next
  case False
  then have "map_of (kvs @ [(k, v)]) = (map_of kvs)(k \<mapsto> v)"
    by (auto simp: map_add_def fun_eq_iff split: option.splits dest: map_of_SomeD
        intro: rev_image_eqI)
  with False show ?thesis
    by (simp add: obj_define_def map_of_insert_index split: option.splits)
qed

lemma map_of_obj_delete: "map_of (obj_delete kvs k) = (map_of kvs)(k := None)"
  by (induction kvs) (auto simp: obj_delete_def)

lemma map_of_assign: "map_of (assign a b) k = (case map_of (rev b) k of Some v \<Rightarrow> Some v | None \<Rightarrow> map_of a k)"
proof (induction b arbitrary: a)
  case Nil
  then show ?case by (simp add: assign_def)
next
  case (Cons x b)
  obtain k' v' where x: "x = (k', v')" by (cases x)
  have "assign a (x # b) = assign (obj_define a k' v') b"
    by (simp add: assign_def x)
  then show ?case
    using Cons.IH [of "obj_define a k' v'"]
    by (auto simp: x map_of_obj_define map_add_def split: option.splits)
qed

lemma distinct_insert_index:
  "k \<notin> fst ` set kvs \<Longrightarrow> distinct (map fst kvs) \<Longrightarrow> distinct (map fst (insert_index i k v kvs))"
proof (induction kvs)
  case Nil
  then show ?case by simp
next
  case (Cons a kvs)
  obtain k' v' where a: "a = (k', v')" by (cases a)
  have "fst ` set (insert_index i k v kvs) = insert k (fst ` set kvs)"
    using Cons.prems(1) arg_cong [OF map_of_insert_index [of k kvs i v], of dom]
    by (simp add: dom_map_of_conv_image_fst a)
  then show ?case
    using Cons by (auto simp: a split: option.splits)
qed

lemma distinct_obj_define:
  assumes "distinct (map fst kvs)"
  shows "distinct (map fst (obj_define kvs k v))"
proof (cases "k \<in> fst ` set kvs")
  case True
  have "map fst (map (\<lambda>(k', v'). if k' = k then (k', v) else (k', v')) kvs) = map fst kvs"
    by (induction kvs) auto
  with True assms show ?thesis by (simp only: obj_define_def if_True)
next
  case False
  with assms show ?thesis
    by (auto simp: obj_define_def distinct_insert_index split: option.splits)
qed

lemma map_of_rev_distinct:
  assumes "distinct (map fst xs)"
  shows "map_of (rev xs) = map_of xs"
proof (rule map_of_inject_set [THEN iffD2])
  show "distinct (map fst (rev xs))" using assms by (simp add: rev_map [symmetric])
  show "distinct (map fst xs)" by (rule assms)
  show "set (rev xs) = set xs" by simp
qed

text \<open>
  An assignment under a name other than \<^verbatim>\<open>__proto__\<close>, or under a name the object
  holds, defines the property; the keys of the callback map hold \<^verbatim>\<open>::\<close>.
\<close>

lemma map_of_obj_assign:
  assumes "k \<noteq> js ''__proto__'' \<or> k \<in> fst ` set kvs"
  shows "map_of (obj_assign kvs k v) = (map_of kvs)(k \<mapsto> v)"
  using assms by (auto simp: obj_assign_def map_of_obj_define)

lemma colon_not_in_proto: "0x3A \<notin> set (js ''__proto__'')"
  by (simp add: js_def)

lemma propFnKey_not_proto: "propFnKey key componentId v parentId \<noteq> js ''__proto__''"
proof -
  have "0x3A \<in> set (propFnKey key componentId v parentId)"
    by (simp add: propFnKey_def js_def)
  then show ?thesis using colon_not_in_proto by metis
qed

lemma argFnKey_not_proto: "argFnKey componentId v \<noteq> js ''__proto__''"
proof -
  have "0x3A \<in> set (argFnKey componentId v)"
    by (simp add: argFnKey_def js_def)
  then show ?thesis using colon_not_in_proto by metis
qed

lemma obj_write_frame:
  assumes "obj_write ob k v = Inr ob'" and "k' \<noteq> k"
  shows "map_of (snd ob') k' = map_of (snd ob) k'"
proof -
  obtain p kvs where ob: "ob = (p, kvs)" by (cases ob)
  from assms show ?thesis
    unfolding ob
    by (auto simp: map_of_obj_define split: if_splits assignment.splits)
qed

lemma obj_write_stored:
  assumes "obj_write ob k v = Inr ob'" and "k \<noteq> js ''__proto__''"
  shows "map_of (snd ob') k = Some v"
proof -
  obtain p kvs where ob: "ob = (p, kvs)" by (cases ob)
  have "assigns_through p k \<noteq> SetsPrototype"
    using assms(2)
    by (cases "(p, k)" rule: assigns_through.cases) (auto simp: through_object_prototype_def)
  with assms(1) show ?thesis
    unfolding ob
    by (auto simp: map_of_obj_define split: if_splits assignment.splits)
qed

lemma obj_write_ObjectPrototype:
  assumes "k \<noteq> js ''__proto__''"
  shows "obj_write (ObjectPrototype, kvs) k v = Inr (ObjectPrototype, obj_define kvs k v)"
  using assms by (simp add: through_object_prototype_def)

lemma obj_write_distinct:
  assumes "obj_write ob k v = Inr ob'" and "distinct (map fst (snd ob))"
  shows "distinct (map fst (snd ob'))"
proof -
  obtain p kvs where ob: "ob = (p, kvs)" by (cases ob)
  from assms show ?thesis
    unfolding ob
    by (auto simp: distinct_obj_define split: if_splits assignment.splits)
qed


section \<open>What deserializeProps builds\<close>

lemma entries_falsy: "\<not> truthy c \<Longrightarrow> entries c = []"
  by (cases c) auto

lemma entries_or_empty: "entries (if truthy c then c else VObj []) = entries c"
  by (simp add: entries_falsy)

lemma keys_obj_define: "fst ` set (obj_define kvs k v) = insert k (fst ` set kvs)"
  using arg_cong [OF map_of_obj_define [of kvs k v], of dom]
  by (simp add: dom_map_of_conv_image_fst)

text \<open>
  The object that the reducer of \<^verbatim>\<open>deserializeProps\<close> builds holds functions only, so
  its prototype is \<^verbatim>\<open>Object.prototype\<close> or, after a method named \<^verbatim>\<open>__proto__\<close>, the
  function built for that method, and it never holds a property named \<^verbatim>\<open>__proto__\<close>.
\<close>

fun callbacks_prototype :: "prototype \<Rightarrow> bool" where
  "callbacks_prototype ObjectPrototype = True"
| "callbacks_prototype (Prototype (VCallback t c m)) = True"
| "callbacks_prototype p = False"

lemma obj_write_callback:
  assumes "callbacks_prototype p" and "js ''__proto__'' \<notin> fst ` set kvs"
  shows "obj_write (p, kvs) k (VCallback t c m) =
           (if k = js ''__proto__'' then Inr (Prototype (VCallback t c m), kvs)
            else if k \<notin> fst ` set kvs \<and> k \<in> set function_unwritable \<and> p \<noteq> ObjectPrototype
            then Inl TypeError
            else Inr (p, obj_define kvs k (VCallback t c m)))"
proof -
  have u: "js ''__proto__'' \<notin> set function_unwritable"
    by (simp add: function_unwritable_def js_def)
  show ?thesis
  proof (cases "k = js ''__proto__''")
    case True
    with assms u show ?thesis
      by (cases p rule: callbacks_prototype.cases)
         (simp_all add: through_object_prototype_def set_prototype_def)
  next
    case False
    with assms show ?thesis
      by (cases p rule: callbacks_prototype.cases)
         (simp_all add: through_object_prototype_def)
  qed
qed

lemma deserializeCallbacks_result:
  assumes "deserializeCallbacks P componentId props L (p, kvs) = Inr cc"
    and "callbacks_prototype p" and "js ''__proto__'' \<notin> fst ` set kvs"
  shows "(\<forall>k. k \<in> fst ` set L \<and> k \<noteq> js ''__proto__'' \<longrightarrow>
            (\<exists>m. map_of cc k = Some (VCallback (callbackSource P) componentId m))) \<and>
         (\<forall>k. k \<notin> fst ` set L \<or> k = js ''__proto__'' \<longrightarrow> map_of cc k = map_of kvs k) \<and>
         (\<forall>k. k \<in> fst ` set L \<longrightarrow> \<not> truthy (get props k))"
  using assms
proof (induction L arbitrary: p kvs)
  case Nil
  then show ?case by simp
next
  case (Cons x L)
  obtain methodName marker where x: "x = (methodName, marker)" by (cases x)
  let ?f = "VCallback (callbackSource P) componentId (get marker (js ''__componentMethod''))"
  from Cons.prems(1) have ok: "\<not> nullish marker" "\<not> truthy (get props methodName)"
    by (auto simp: x split: if_splits)
  from Cons.prems(1) ok obtain p' kvs' where
    w: "obj_write (p, kvs) methodName ?f = Inr (p', kvs')"
    and rest: "deserializeCallbacks P componentId props L (p', kvs') = Inr cc"
    by (auto simp: x split: sum.splits simp del: obj_write.simps)
  note wc = obj_write_callback [OF Cons.prems(2,3), of methodName "callbackSource P" componentId
      "get marker (js ''__componentMethod'')"]
  from w have pk: "(p', kvs') =
      (if methodName = js ''__proto__'' then (Prototype ?f, kvs)
       else (p, obj_define kvs methodName ?f))"
    unfolding wc by (simp split: if_splits)
  have inv: "callbacks_prototype p'"
    using pk Cons.prems(2) by (simp split: if_splits)
  have no: "js ''__proto__'' \<notin> fst ` set kvs'"
    using pk Cons.prems(3) by (simp add: keys_obj_define split: if_splits)
  have own: "map_of kvs' =
      (if methodName = js ''__proto__'' then map_of kvs else (map_of kvs)(methodName \<mapsto> ?f))"
    using pk by (simp add: map_of_obj_define split: if_splits)
  note IH = Cons.IH [OF rest inv no]
  show ?case
  proof (intro conjI allI impI)
    fix k assume k: "k \<in> fst ` set (x # L) \<and> k \<noteq> js ''__proto__''"
    then consider "k \<in> fst ` set L" | "k \<notin> fst ` set L" "k = methodName"
      by (auto simp: x)
    then show "\<exists>m. map_of cc k = Some (VCallback (callbackSource P) componentId m)"
    proof cases
      case 1
      then show ?thesis using IH k by blast
    next
      case 2
      then have "map_of cc k = map_of kvs' k" using IH by blast
      moreover from 2(2) k have "methodName \<noteq> js ''__proto__''" by blast
      then have "map_of kvs' = (map_of kvs)(methodName \<mapsto> ?f)" by (simp add: own)
      ultimately show ?thesis using 2 by simp
    qed
  next
    fix k assume k: "k \<notin> fst ` set (x # L) \<or> k = js ''__proto__''"
    then have "k \<notin> fst ` set L \<or> k = js ''__proto__''" by auto
    then have "map_of cc k = map_of kvs' k" using IH by blast
    also have "\<dots> = map_of kvs k"
      using k by (auto simp: own x)
    finally show "map_of cc k = map_of kvs k" .
  next
    fix k assume "k \<in> fst ` set (x # L)"
    then show "\<not> truthy (get props k)" using IH ok by (auto simp: x)
  qed
qed

lemma deserializeCallbacks_distinct:
  assumes "deserializeCallbacks P componentId props L ob = Inr cc"
    and "distinct (map fst (snd ob))"
  shows "distinct (map fst cc)"
  using assms
proof (induction L arbitrary: ob)
  case Nil
  then show ?case by simp
next
  case (Cons x L)
  obtain methodName marker where x: "x = (methodName, marker)" by (cases x)
  let ?f = "VCallback (callbackSource P) componentId (get marker (js ''__componentMethod''))"
  from Cons.prems(1) obtain ob' where
    w: "obj_write ob methodName ?f = Inr ob'"
    and rest: "deserializeCallbacks P componentId props L ob' = Inr cc"
    by (auto simp: x split: if_splits sum.splits)
  from rest obj_write_distinct [OF w Cons.prems(2)] show ?case
    by (rule Cons.IH)
qed

text \<open>
  Whenever \<^verbatim>\<open>deserializeProps\<close> returns, the result has no \<^verbatim>\<open>__componentcallbacks\<close>
  key; it holds a function built by the call under every key of the
  \<^verbatim>\<open>__componentcallbacks\<close> object but \<^verbatim>\<open>__proto__\<close>, and no such key reads as a truthy
  value from \<^verbatim>\<open>props\<close>; every other entry of \<^verbatim>\<open>props\<close>, \<^verbatim>\<open>__domcallbacks\<close> among them,
  is in the result as it was.
\<close>

lemma deserializeProps_frame:
  assumes "deserializeProps P componentId props = Inr result"
  shows "map_of (entries result) (js ''__componentcallbacks'') = None \<and>
         (\<forall>k. k \<in> fst ` set (entries (get props (js ''__componentcallbacks''))) \<longrightarrow>
            (k \<noteq> js ''__proto__'' \<longrightarrow>
               (\<exists>m. map_of (entries result) k =
                       Some (VCallback (callbackSource P) componentId m))) \<and>
            \<not> truthy (get props k)) \<and>
         (\<forall>k. k \<noteq> js ''__componentcallbacks'' \<and>
              (k \<notin> fst ` set (entries (get props (js ''__componentcallbacks''))) \<or>
               k = js ''__proto__'') \<longrightarrow>
            map_of (entries result) k = map_of (entries props) k)"
proof -
  let ?name = "js ''__componentcallbacks''"
  let ?L = "entries (get props ?name)"
  let ?cp = "obj_delete (entries props) ?name"
  from assms obtain cc where
    cc: "deserializeCallbacks P componentId props ?L empty_object = Inr cc"
    and res: "result = VObj (assign ?cp cc)"
    by (auto simp: deserializeProps_def Let_def entries_or_empty split: if_splits sum.splits)
  have r: "(\<forall>k. k \<in> fst ` set ?L \<and> k \<noteq> js ''__proto__'' \<longrightarrow>
            (\<exists>m. map_of cc k = Some (VCallback (callbackSource P) componentId m))) \<and>
         (\<forall>k. k \<notin> fst ` set ?L \<or> k = js ''__proto__'' \<longrightarrow> map_of cc k = None) \<and>
         (\<forall>k. k \<in> fst ` set ?L \<longrightarrow> \<not> truthy (get props k))"
    using deserializeCallbacks_result [OF cc] by simp
  have "distinct (map fst cc)"
    using deserializeCallbacks_distinct [OF cc] by simp
  then have "map_of (rev cc) = map_of cc"
    by (rule map_of_rev_distinct)
  then have look: "map_of (entries result) k =
      (case map_of cc k of Some v \<Rightarrow> Some v | None \<Rightarrow> map_of ?cp k)" for k
    by (simp add: res map_of_assign)
  have name_notin: "?name \<notin> fst ` set ?L"
  proof
    assume a: "?name \<in> fst ` set ?L"
    then have "?L \<noteq> []" by auto
    then have "truthy (get props ?name)" using entries_falsy by blast
    moreover have "\<not> truthy (get props ?name)" using r a by blast
    ultimately show False by simp
  qed
  show ?thesis
  proof (intro conjI allI impI)
    show "map_of (entries result) ?name = None"
      using r name_notin by (simp add: look map_of_obj_delete)
  next
    fix k assume "k \<in> fst ` set ?L" and "k \<noteq> js ''__proto__''"
    then show "\<exists>m. map_of (entries result) k = Some (VCallback (callbackSource P) componentId m)"
      using r by (auto simp: look)
  next
    fix k assume "k \<in> fst ` set ?L"
    then show "\<not> truthy (get props k)" using r by blast
  next
    fix k assume "k \<noteq> ?name \<and> (k \<notin> fst ` set ?L \<or> k = js ''__proto__'')"
    then show "map_of (entries result) k = map_of (entries props) k"
      using r by (auto simp: look map_of_obj_delete)
  qed
qed


section \<open>Example inputs\<close>

definition componentFn :: jsval where
  "componentFn = VFun (Func 1 (js ''Component'') (js ''function Component() {}''))"

definition widgetFn :: jsval where
  "widgetFn = VFun (Func 2 (js ''Widget'') (js ''function Widget() {}''))"

definition rootParams :: params where
  "rootParams =
     \<lparr>isComponent = (\<lambda>f. f = componentFn), isWidget = (\<lambda>f. f = widgetFn),
      parentContainerId = None, randomUUID = (\<lambda>n. js ''request-'' @ str_of_nat n),
      callbackSource = js ''(...args) => {}''\<rparr>"

definition childParams :: params where
  "childParams = rootParams\<lparr>parentContainerId := Some (js ''root'')\<rparr>"

definition emptyContainer :: container where
  "emptyContainer = \<lparr>callbacks = [], requests = [], console = [], posted = [], uuids_drawn = 0\<rparr>"

lemmas object_eval =
  js_def obj_define_def obj_assign_def obj_delete_def assign_def fromEntries_def array_index_def
  is_digit_def inherited_def object_prototype_names_def through_object_prototype_def
  set_prototype_def function_unwritable_def

definition callbackProps :: jsval where
  "callbackProps =
     VObj [(js ''title'', VStr (js ''t'')),
           (js ''__componentcallbacks'',
            VObj [(js ''onClick'',
                   VObj [(js ''__componentMethod'', VStr (js ''onClick::a##x##root::root'')),
                         (js ''parentId'', VStr (js ''root''))])])]"

lemma deserializeProps_callbackProps:
  "deserializeProps P c callbackProps =
     Inr (VObj [(js ''title'', VStr (js ''t'')),
                (js ''onClick'', VCallback (callbackSource P) c (VStr (js ''onClick::a##x##root::root'')))])"
  by (simp add: deserializeProps_def callbackProps_def object_eval)

section \<open>A root component calling upward\<close>

lemma get_deserialized_callback:
  assumes "deserializeProps P componentId props = Inr result"
    and "k \<in> fst ` set (entries (get props (js ''__componentcallbacks'')))"
    and "k \<noteq> js ''__proto__''"
  shows "\<exists>m. get result k = VCallback (callbackSource P) componentId m"
proof -
  from deserializeProps_frame [OF assms(1)] assms(2,3) obtain m where
    "map_of (entries result) k = Some (VCallback (callbackSource P) componentId m)"
    by blast
  moreover from assms(1) obtain kvs where "result = VObj kvs"
    by (auto simp: deserializeProps_def Let_def split: if_splits sum.splits)
  ultimately have "get result k = VCallback (callbackSource P) componentId m"
    by simp
  then show ?thesis ..
qed

text \<open>
  C4: in a container whose \<^verbatim>\<open>parentContainerId\<close> is \<^verbatim>\<open>null\<close>, every function that
  \<^verbatim>\<open>deserializeProps\<close> builds, called with any arguments in any state, reports the error
  on the console and returns \<^verbatim>\<open>undefined\<close>; the envelopes posted, the requests and the
  callback map are as before. The function has no \<^verbatim>\<open>throw\<close> on this path. The result of
  \<^verbatim>\<open>deserializeProps\<close> holds such a function under every key of the
  \<^verbatim>\<open>__componentcallbacks\<close> object but \<^verbatim>\<open>__proto__\<close>, under which the assignment
  defines no property.
\<close>

theorem C4_root_callback_reports:
  assumes "parentContainerId P = None"
    and "deserializeProps P componentId props = Inr result"
    and "k \<in> fst ` set (entries (get props (js ''__componentcallbacks'')))"
  shows "(k \<noteq> js ''__proto__'' \<longrightarrow>
            (\<exists>m. get result k = VCallback (callbackSource P) componentId m)) \<and>
         (\<forall>m. componentCallback P componentId m args st =
                 (ReturnedUndefined,
                  st\<lparr>console := console st @
                    [ConsoleError (js ''Root Component cannot invoke method on parent'')]\<rparr>) \<and>
               posted (snd (componentCallback P componentId m args st)) = posted st \<and>
               requests (snd (componentCallback P componentId m args st)) = requests st \<and>
               callbacks (snd (componentCallback P componentId m args st)) = callbacks st)"
proof (intro conjI impI allI)
  assume "k \<noteq> js ''__proto__''"
  with assms(2,3) show "\<exists>m. get result k = VCallback (callbackSource P) componentId m"
    by (rule get_deserialized_callback)
next
  fix m
  have run: "componentCallback P componentId m args st =
      (ReturnedUndefined,
       st\<lparr>console := console st @
         [ConsoleError (js ''Root Component cannot invoke method on parent'')]\<rparr>)"
    using assms(1) by (simp add: componentCallback_def rootRefusal_def)
  show "componentCallback P componentId m args st =
      (ReturnedUndefined,
       st\<lparr>console := console st @
         [ConsoleError (js ''Root Component cannot invoke method on parent'')]\<rparr>)"
    by (rule run)
  show "posted (snd (componentCallback P componentId m args st)) = posted st"
    by (simp add: run)
  show "requests (snd (componentCallback P componentId m args st)) = requests st"
    by (simp add: run)
  show "callbacks (snd (componentCallback P componentId m args st)) = callbacks st"
    by (simp add: run)
qed

theorem C4_root_callback_witness:
  "parentContainerId rootParams = None \<and>
   (\<exists>m. get (VObj [(js ''title'', VStr (js ''t'')),
                   (js ''onClick'', VCallback (callbackSource rootParams) (js ''c'')
                      (VStr (js ''onClick::a##x##root::root'')))]) (js ''onClick'')
           = VCallback (callbackSource rootParams) (js ''c'') m \<and>
        componentCallback rootParams (js ''c'') m [VNum 1, VStr (js ''two'')] emptyContainer =
          (ReturnedUndefined,
           emptyContainer\<lparr>console := console emptyContainer @
             [ConsoleError (js ''Root Component cannot invoke method on parent'')]\<rparr>) \<and>
        posted (snd (componentCallback rootParams (js ''c'') m [VNum 1, VStr (js ''two'')]
          emptyContainer)) = posted emptyContainer \<and>
        requests (snd (componentCallback rootParams (js ''c'') m [VNum 1, VStr (js ''two'')]
          emptyContainer)) = requests emptyContainer \<and>
        callbacks (snd (componentCallback rootParams (js ''c'') m [VNum 1, VStr (js ''two'')]
          emptyContainer)) = callbacks emptyContainer)"
proof -
  have root: "parentContainerId rootParams = None"
    by (simp add: rootParams_def)
  have key: "js ''onClick'' \<in> fst ` set (entries (get callbackProps (js ''__componentcallbacks'')))"
    by (simp add: callbackProps_def js_def)
  have ne: "js ''onClick'' \<noteq> js ''__proto__''"
    by (simp add: js_def)
  from C4_root_callback_reports [OF root deserializeProps_callbackProps key,
      of "js ''c''" "[VNum 1, VStr (js ''two'')]" emptyContainer] ne
  show ?thesis
    using root by auto
qed

text \<open>
  With a parent the same function files a request and posts one envelope: the refusal
  above is the root's alone. (A request id is a UUID, not \<^verbatim>\<open>__proto__\<close>.)
\<close>

lemma componentCallback_with_parent:
  assumes "parentContainerId P = Some target" and "target \<noteq> []"
    and "randomUUID P (uuids_drawn st) \<noteq> js ''__proto__''"
  shows "fst (componentCallback P componentId m args st) = ReturnedPromise (randomUUID P (uuids_drawn st))"
    and "map_of (requests (snd (componentCallback P componentId m args st)))
           (randomUUID P (uuids_drawn st)) = Some Pending"
    and "\<exists>sargs. posted (snd (componentCallback P componentId m args st)) =
           posted st @ [\<lparr>inv_args = sargs, inv_method = m, inv_originator = componentId,
             inv_requestId = randomUUID P (uuids_drawn st), inv_targetId = target\<rparr>]"
    and "console (snd (componentCallback P componentId m args st)) = console st"
  using assms
  by (auto simp: componentCallback_def postCallbackInvocationMessage_def Let_def map_of_obj_assign
      split: prod.splits)

section \<open>Duplicate keys in deserializeProps\<close>

definition shadowedProps :: jsval where
  "shadowedProps =
     VObj [(js ''count'', VNum 0),
           (js ''__componentcallbacks'',
            VObj [(js ''count'',
                   VObj [(js ''__componentMethod'', VStr (js ''count::a##x##root::root'')),
                         (js ''parentId'', VStr (js ''root''))])])]"

definition duplicateProps :: jsval where
  "duplicateProps =
     VObj [(js ''count'', VNum 1),
           (js ''__componentcallbacks'',
            VObj [(js ''count'',
                   VObj [(js ''__componentMethod'', VStr (js ''count::a##x##root::root'')),
                         (js ''parentId'', VStr (js ''root''))])])]"

text \<open>
  When no marker is \<^verbatim>\<open>undefined\<close> or \<^verbatim>\<open>null\<close> and no method is named \<^verbatim>\<open>__proto__\<close>, the
  reducer throws exactly when some method name reads as a truthy value from \<^verbatim>\<open>props\<close>.
\<close>

lemma deserializeCallbacks_throws_iff:
  assumes "\<forall>m \<in> snd ` set L. \<not> nullish m" and "js ''__proto__'' \<notin> fst ` set L"
    and "js ''__proto__'' \<notin> fst ` set kvs"
  shows "(\<exists>e. deserializeCallbacks P componentId props L (ObjectPrototype, kvs) = Inl e)
           \<longleftrightarrow> (\<exists>k \<in> fst ` set L. truthy (get props k))"
  using assms
proof (induction L arbitrary: kvs)
  case Nil
  then show ?case by simp
next
  case (Cons x L)
  obtain methodName marker where x: "x = (methodName, marker)" by (cases x)
  let ?f = "VCallback (callbackSource P) componentId (get marker (js ''__componentMethod''))"
  from Cons.prems have m: "\<not> nullish marker" and ms: "\<forall>m \<in> snd ` set L. \<not> nullish m"
    and ne: "methodName \<noteq> js ''__proto__''" and ks: "js ''__proto__'' \<notin> fst ` set L"
    by (auto simp: x)
  have w: "obj_write (ObjectPrototype, kvs) methodName ?f =
      Inr (ObjectPrototype, obj_define kvs methodName ?f)"
    using ne by (rule obj_write_ObjectPrototype)
  have "js ''__proto__'' \<notin> fst ` set (obj_define kvs methodName ?f)"
    using ne Cons.prems(3) by (simp add: keys_obj_define)
  from Cons.IH [OF ms ks this] show ?case
    using m by (simp add: x w del: obj_write.simps)
qed

text \<open>
  C5: a key that is both a plain prop and a \<^verbatim>\<open>__componentcallbacks\<close> entry makes
  \<^verbatim>\<open>deserializeProps\<close> throw. The test is \<^verbatim>\<open>if (props[methodName])\<close>: with the plain
  value \<open>1\<close> the call throws the duplicate-key error, with the plain value \<open>0\<close> it
  returns, and the function has taken the place of the value.
\<close>

theorem C5_falsy_duplicate_not_raised:
  "deserializeProps P c duplicateProps = Inl (Error (duplicateKeyMessage (js ''count'') c)) \<and>
   deserializeProps P c shadowedProps =
     Inr (VObj [(js ''count'',
                 VCallback (callbackSource P) c (VStr (js ''count::a##x##root::root'')))])"
  by (simp add: deserializeProps_def duplicateProps_def shadowedProps_def object_eval)

section \<open>The frame of deserializeProps\<close>

definition disabledProps :: jsval where
  "disabledProps =
     VObj [(js ''disabled'', VBool False),
           (js ''__domcallbacks'',
            VObj [(js ''onHover'', VObj [(js ''__componentMethod'', VStr (js ''onHover::f::root''))])]),
           (js ''__componentcallbacks'',
            VObj [(js ''disabled'',
                   VObj [(js ''__componentMethod'', VStr (js ''disabled::a##x##root::root'')),
                         (js ''parentId'', VStr (js ''root''))])])]"

definition mixedProps :: jsval where
  "mixedProps =
     VObj [(js ''title'', VStr (js ''t'')),
           (js ''__domcallbacks'',
            VObj [(js ''onHover'', VObj [(js ''__componentMethod'', VStr (js ''onHover::f::root''))])]),
           (js ''__componentcallbacks'',
            VObj [(js ''onClick'',
                   VObj [(js ''__componentMethod'', VStr (js ''onClick::a##x##root::root'')),
                         (js ''parentId'', VStr (js ''root''))])])]"

definition protoProps :: jsval where
  "protoProps =
     VObj [(js ''__proto__'', VNum 0),
           (js ''__componentcallbacks'',
            VObj [(js ''__proto__'',
                   VObj [(js ''__componentMethod'', VStr (js ''__proto__::a##x##root::root'')),
                         (js ''parentId'', VStr (js ''root''))])])]"

text \<open>
  C10: every entry of \<^verbatim>\<open>props\<close> other than \<^verbatim>\<open>__componentcallbacks\<close> is unchanged in the
  result. The entry \<^verbatim>\<open>disabled\<close> is \<^verbatim>\<open>false\<close> in these props and a function in the
  result: the key is a method name too, which the test \<^verbatim>\<open>if (props[methodName])\<close> lets
  pass because the plain value is falsy, so the function is written over the value
  where the duplicate-key error was to be thrown.
\<close>

theorem C10_falsy_entry_replaced:
  "deserializeProps rootParams (js ''c'') disabledProps =
     Inr (VObj [(js ''disabled'',
                 VCallback (callbackSource rootParams) (js ''c'')
                   (VStr (js ''disabled::a##x##root::root''))),
                (js ''__domcallbacks'',
                 VObj [(js ''onHover'',
                        VObj [(js ''__componentMethod'', VStr (js ''onHover::f::root''))])])]) \<and>
   map_of (entries disabledProps) (js ''disabled'') = Some (VBool False)"
  by (simp add: deserializeProps_def disabledProps_def object_eval)

text \<open>
  When no key of the \<^verbatim>\<open>__componentcallbacks\<close> object is a key of \<^verbatim>\<open>props\<close>, the result
  holds every entry of \<^verbatim>\<open>props\<close> but \<^verbatim>\<open>__componentcallbacks\<close> as it was, whatever the
  values: the frame fails only where a duplicate key goes unnoticed.
\<close>

lemma deserializeProps_frame_without_duplicates:
  assumes "deserializeProps P componentId props = Inr result"
    and "\<forall>k \<in> fst ` set (entries (get props (js ''__componentcallbacks''))).
           k \<notin> fst ` set (entries props)"
    and "(k, v) \<in> set (entries props)" and "k \<noteq> js ''__componentcallbacks''"
    and "distinct (map fst (entries props))"
  shows "map_of (entries result) k = Some v"
proof -
  from assms(2,3) have "k \<notin> fst ` set (entries (get props (js ''__componentcallbacks'')))"
    by force
  with deserializeProps_frame [OF assms(1)] assms(4)
  have "map_of (entries result) k = map_of (entries props) k"
    by blast
  then show ?thesis
    using assms(3,5) by simp
qed

lemma deserializeProps_mixedProps:
  "deserializeProps rootParams (js ''c'') mixedProps =
     Inr (VObj [(js ''title'', VStr (js ''t'')),
                (js ''__domcallbacks'',
                 VObj [(js ''onHover'',
                        VObj [(js ''__componentMethod'', VStr (js ''onHover::f::root''))])]),
                (js ''onClick'',
                 VCallback (callbackSource rootParams) (js ''c'')
                   (VStr (js ''onClick::a##x##root::root'')))])"
  by (simp add: deserializeProps_def mixedProps_def object_eval)

text \<open>
  A method named \<^verbatim>\<open>__proto__\<close> passes the test only over a falsy property of that name;
  the assignment then calls the setter of \<^verbatim>\<open>Object.prototype\<close>, and the result keeps the
  value.
\<close>

lemma deserializeProps_protoProps:
  "deserializeProps P c protoProps = Inr (VObj [(js ''__proto__'', VNum 0)])"
  by (simp add: deserializeProps_def protoProps_def object_eval)

section \<open>A nested component whose props fail to serialize\<close>


definition componentIdOf :: "jsstr \<Rightarrow> jsval \<Rightarrow> jsstr" where
  "componentIdOf parentId node =
     buildComponentId (get (VObj (nodeProps node)) (js ''id''))
       (get (VObj (nodeProps node)) (js ''src'')) parentId"

definition componentPropsOf :: "jsval \<Rightarrow> jsval" where
  "componentPropsOf node = get (VObj (nodeProps node)) (js ''props'')"


definition loadWarned :: "jsstr \<Rightarrow> error \<Rightarrow> jsval \<Rightarrow> container \<Rightarrow> container" where
  "loadWarned parentId e node st =
     st\<lparr>console := console st @
       [ConsoleWarnLoad (js ''failed to dispatch component load for '' @ parentId) e
          (componentPropsOf node)]\<rparr>"

lemma truthy_not_nullish: "truthy v \<Longrightarrow> \<not> nullish v"
  by (cases v) auto






lemmas serializer_eval =
  serializeNode.simps serializeProps_entries.simps serializeChildren.simps share.simps
  serializeChildComponent.simps serializeProps_def isRendered_def isProxy_def
  registerCallback_def addMarker_def propFnKey_def callbackIdentity_def unifiedChildren_def
  nodeProps_def flat_def placeholder_def buildComponentId_def js_join_def optional_toString_def
  Let_def






text \<open>
  The same holds of \<^verbatim>\<open>serializeNode\<close> in \<^verbatim>\<open>serialize.ts\<close>, whose nested components are
  the functions named \<^verbatim>\<open>Widget\<close>: the \<^verbatim>\<open>push\<close> is inside the \<^verbatim>\<open>try\<close>.
\<close>

lemma serializeNode_legacy_failed_widget_omitted:
  assumes "truthy node" and "typeof_object node"
    and "typeof_function (get node (js ''type''))"
    and "function_name (get node (js ''type'')) = js ''Widget''"
    and "preactRootComponentName L \<noteq> js ''Widget''"
    and "builtinComponents L (js ''Widget'') = None"
    and "truthy (componentPropsOf node)"
    and "bubble (unifiedChildren node) acc = (None, acc1)"
    and "serializeProps_legacy L n (Some (componentIdOf parentId node)) parentId
           (componentPropsOf node) st = Some (Inl e, st1)"
  shows "serializeNode_legacy L (Suc n) node acc parentId st =
           Some (Inr (placeholder (componentIdOf parentId node)), acc1,
                 loadWarned parentId e node st1)"
  using assms
  by (subst serializeNode_legacy.simps)
     (simp add: serializeProps_legacy_def componentIdOf_def componentPropsOf_def loadWarned_def
       truthy_not_nullish Let_def)

section \<open>Props that serialize without a throw\<close>

lemma key_facts [simp]:
  "js ''type'' \<noteq> js ''props''" "js ''props'' \<noteq> js ''type''"
  "js ''children'' \<noteq> js ''type''" "js ''children'' \<noteq> js ''props''"
  "js ''childComponents'' \<noteq> js ''type''" "js ''childComponents'' \<noteq> js ''props''"
  "js ''children'' \<noteq> js ''__componentcallbacks''" "js ''children'' \<noteq> js ''__domcallbacks''"
  "js ''children'' \<noteq> js ''__proto__''"
  "js ''__componentcallbacks'' \<noteq> js ''__domcallbacks''"
  "js ''__domcallbacks'' \<noteq> js ''__componentcallbacks''"
  "js ''__componentcallbacks'' \<noteq> js ''__proto__''"
  "js ''__domcallbacks'' \<noteq> js ''__proto__''"
  "inherited (js ''type'') = VUndefined" "inherited (js ''children'') = VUndefined"
  "inherited (js ''childComponents'') = VUndefined"
  "inherited (js ''__componentcallbacks'') = VUndefined"
  "inherited (js ''__domcallbacks'') = VUndefined"
  "js ''childComponents'' \<notin> set object_prototype_names"
  by (simp_all add: js_def inherited_def object_prototype_names_def)

text \<open>
  Props that \<^verbatim>\<open>serializeProps\<close> copies or registers without a recursive call and without
  a clash: no value is a rendered node, no key is one of the two marker names or
  \<^verbatim>\<open>__proto__\<close>.
\<close>

definition simpleProps :: "entries \<Rightarrow> bool" where
  "simpleProps es =
     list_all (\<lambda>(k, v). \<not> isRendered v \<and> k \<noteq> js ''__componentcallbacks'' \<and>
                        k \<noteq> js ''__domcallbacks'' \<and> k \<noteq> js ''__proto__'') es"

text \<open>
  While such props are serialized, \<^verbatim>\<open>newProps\<close> keeps the prototype it has as \<^verbatim>\<open>{}\<close>,
  and what it holds under a marker name is the object that the function branch has put
  there.
\<close>

definition markersOk :: "object \<Rightarrow> bool" where
  "markersOk np =
     (fst np = ObjectPrototype \<and>
      (map_of (snd np) (js ''__componentcallbacks'') = None \<or>
       (\<exists>m. map_of (snd np) (js ''__componentcallbacks'') = Some (VObj m))) \<and>
      (map_of (snd np) (js ''__domcallbacks'') = None \<or>
       (\<exists>m. map_of (snd np) (js ''__domcallbacks'') = Some (VObj m))))"

lemma markersOk_empty [simp]: "markersOk empty_object"
  by (simp add: markersOk_def)

lemma addMarker_ok:
  assumes "map_of kvs family = None \<or> (\<exists>m. map_of kvs family = Some (VObj m))"
    and "inherited family = VUndefined" and "family \<noteq> js ''__proto__''"
  shows "\<exists>kvs' m. addMarker family key marker (ObjectPrototype, kvs) = Inr (ObjectPrototype, kvs') \<and>
           map_of kvs' = (map_of kvs)(family \<mapsto> VObj m)"
proof -
  from assms(1) show ?thesis
  proof
    assume none: "map_of kvs family = None"
    then have own: "family \<notin> fst ` set kvs"
      by (simp add: map_of_eq_None_iff)
    let ?kvs1 = "obj_define kvs family (VObj [])"
    have "addMarker family key marker (ObjectPrototype, kvs) =
        Inr (ObjectPrototype, obj_define ?kvs1 family (VObj (obj_assign [] key marker)))"
      using none own assms(2,3)
      by (simp add: addMarker_def through_object_prototype_def map_of_obj_define keys_obj_define)
    then show ?thesis
      by (auto simp: map_of_obj_define)
  next
    assume "\<exists>m. map_of kvs family = Some (VObj m)"
    then obtain m where m: "map_of kvs family = Some (VObj m)" ..
    then have own: "family \<in> fst ` set kvs"
      by (meson domI domIff map_of_eq_None_iff)
    have "addMarker family key marker (ObjectPrototype, kvs) =
        Inr (ObjectPrototype, obj_define kvs family (VObj (obj_assign m key marker)))"
      using m own by (simp add: addMarker_def)
    then show ?thesis
      by (auto simp: map_of_obj_define)
  qed
qed

lemma registerCallback_ok:
  assumes "markersOk np"
  shows "\<exists>np' st1. registerCallback componentId parentId key v np st = (Inr np', st1) \<and>
           markersOk np' \<and> console st1 = console st"
proof -
  obtain kvs where np: "np = (ObjectPrototype, kvs)"
    using assms by (cases np) (simp add: markersOk_def)
  show ?thesis
  proof (cases "componentId \<noteq> None \<and> componentId \<noteq> Some []")
    case True
    from assms have "map_of kvs (js ''__componentcallbacks'') = None \<or>
        (\<exists>m. map_of kvs (js ''__componentcallbacks'') = Some (VObj m))"
      by (simp add: markersOk_def np)
    from addMarker_ok [OF this key_facts(17) key_facts(12)]
    obtain kvs' m where
      "addMarker (js ''__componentcallbacks'') key
         (VObj [(js ''__componentMethod'', VStr (propFnKey key componentId v parentId)),
                (js ''parentId'', VStr parentId)]) (ObjectPrototype, kvs) = Inr (ObjectPrototype, kvs')"
      and "map_of kvs' = (map_of kvs)(js ''__componentcallbacks'' \<mapsto> VObj m)"
      by blast
    with True assms show ?thesis
      by (auto simp: registerCallback_def Let_def markersOk_def np)
  next
    case False
    from assms have "map_of kvs (js ''__domcallbacks'') = None \<or>
        (\<exists>m. map_of kvs (js ''__domcallbacks'') = Some (VObj m))"
      by (simp add: markersOk_def np)
    from addMarker_ok [OF this key_facts(18) key_facts(13)]
    obtain kvs' m where
      "addMarker (js ''__domcallbacks'') key
         (VObj [(js ''__componentMethod'', VStr (propFnKey key componentId v parentId))])
         (ObjectPrototype, kvs) = Inr (ObjectPrototype, kvs')"
      and "map_of kvs' = (map_of kvs)(js ''__domcallbacks'' \<mapsto> VObj m)"
      by blast
    with False assms show ?thesis
      by (auto simp: registerCallback_def Let_def markersOk_def np)
  qed
qed

lemma obj_write_ok:
  assumes "markersOk np" and "k \<noteq> js ''__componentcallbacks''" and "k \<noteq> js ''__domcallbacks''"
    and "k \<noteq> js ''__proto__''"
  shows "\<exists>np'. obj_write np k v = Inr np' \<and> markersOk np'"
proof -
  obtain kvs where np: "np = (ObjectPrototype, kvs)"
    using assms(1) by (cases np) (simp add: markersOk_def)
  have "obj_write np k v = Inr (ObjectPrototype, obj_define kvs k v)"
    unfolding np using assms(4) by (rule obj_write_ObjectPrototype)
  moreover have "markersOk (ObjectPrototype, obj_define kvs k v)"
    using assms by (simp add: markersOk_def np map_of_obj_define)
  ultimately show ?thesis by blast
qed

text \<open>Simple props serialize without a throw and without a word on the console.\<close>

lemma serializeProps_entries_simple:
  assumes "simpleProps es" and "markersOk np"
  shows "\<exists>res st'. serializeProps_entries P componentId parentId es np st = (Inr res, st') \<and>
           console st' = console st"
  using assms
proof (induction es arbitrary: np st)
  case Nil
  then show ?case by simp
next
  case (Cons x es)
  obtain key v where x: "x = (key, v)" by (cases x)
  from Cons.prems(1) have v: "\<not> isRendered v" and k: "key \<noteq> js ''__componentcallbacks''"
      "key \<noteq> js ''__domcallbacks''" "key \<noteq> js ''__proto__''" and rest: "simpleProps es"
    by (simp_all add: simpleProps_def x)
  show ?case
  proof (cases "typeof_function v")
    case False
    let ?w = "if isProxy v then VObj (entries v) else v"
    from obj_write_ok [OF Cons.prems(2) k, of ?w] obtain np' where
      w: "obj_write np key ?w = Inr np'" and ok: "markersOk np'"
      by blast
    from Cons.IH [OF rest ok, of st] show ?thesis
      using False v w unfolding x by (subst serializeProps_entries.simps) simp
  next
    case True
    from registerCallback_ok [OF Cons.prems(2), of componentId parentId key v st]
    obtain np' st1 where reg: "registerCallback componentId parentId key v np st = (Inr np', st1)"
      and ok: "markersOk np'" and c: "console st1 = console st"
      by blast
    from Cons.IH [OF rest ok, of st1] show ?thesis
      using True reg c unfolding x by (subst serializeProps_entries.simps) simp
  qed
qed

lemma serializeProps_entries_legacy_simple:
  assumes "simpleProps es" and "markersOk np"
  shows "\<exists>res st'. serializeProps_entries_legacy L n componentId parentId es np st =
           Some (Inr res, st') \<and> console st' = console st"
  using assms
proof (induction es arbitrary: np st)
  case Nil
  then show ?case by simp
next
  case (Cons x es)
  obtain key v where x: "x = (key, v)" by (cases x)
  from Cons.prems(1) have v: "\<not> isRendered v" and k: "key \<noteq> js ''__componentcallbacks''"
      "key \<noteq> js ''__domcallbacks''" "key \<noteq> js ''__proto__''" and rest: "simpleProps es"
    by (simp_all add: simpleProps_def x)
  show ?case
  proof (cases "typeof_function v")
    case False
    let ?w = "case v of VStr s \<Rightarrow> VStr (decodeJsonString_param L s)
              | _ \<Rightarrow> if isProxy v then VObj (entries v) else v"
    from obj_write_ok [OF Cons.prems(2) k, of ?w] obtain np' where
      w: "obj_write np key ?w = Inr np'" and ok: "markersOk np'"
      by blast
    from Cons.IH [OF rest ok, of st] show ?thesis
      using False v w unfolding x by (subst serializeProps_entries_legacy.simps) simp
  next
    case True
    from registerCallback_ok [OF Cons.prems(2), of componentId parentId key v st]
    obtain np' st1 where reg: "registerCallback componentId parentId key v np st = (Inr np', st1)"
      and ok: "markersOk np'" and c: "console st1 = console st"
      by blast
    from Cons.IH [OF rest ok, of st1] show ?thesis
      using True reg c unfolding x by (subst serializeProps_entries_legacy.simps) simp
  qed
qed

section \<open>String props\<close>

lemma obj_update_frame:
  assumes "k' \<noteq> k"
  shows "map_of (snd (obj_update ob k v)) k' = map_of (snd ob) k'"
proof -
  obtain p kvs where ob: "ob = (p, kvs)" by (cases ob)
  show ?thesis
    unfolding ob using assms
    by (auto simp: map_of_obj_define split: prototype.splits jsval.splits)
qed

lemma addMarker_frame:
  assumes "addMarker family key marker newProps = Inr np" and "k \<noteq> family"
  shows "map_of (snd np) k = map_of (snd newProps) k"
proof -
  from assms(1) obtain np1 where
    first: "(if truthy (obj_read newProps family) then Inr newProps
             else obj_write newProps family (VObj [])) = Inr np1"
    and second: "np = np1 \<or> (\<exists>w. np = obj_update np1 family w)"
    by (auto simp: addMarker_def split: sum.splits jsval.splits option.splits if_splits)
  from first have "map_of (snd np1) k = map_of (snd newProps) k"
    using assms(2) by (auto split: if_splits dest: obj_write_frame)
  moreover from second have "map_of (snd np) k = map_of (snd np1) k"
    using assms(2) by (auto simp: obj_update_frame)
  ultimately show ?thesis by simp
qed

lemma registerCallback_frame:
  assumes "registerCallback componentId parentId key v newProps st = (Inr np, st1)"
    and "k \<noteq> js ''__componentcallbacks''" and "k \<noteq> js ''__domcallbacks''"
  shows "map_of (snd np) k = map_of (snd newProps) k"
  using assms
  by (auto simp: registerCallback_def Let_def split: if_splits dest: addMarker_frame)

lemma serializeProps_entries_frame:
  assumes "serializeProps_entries P componentId parentId es newProps st = (Inr res, st')"
    and "k \<notin> fst ` set es"
    and "k \<noteq> js ''__componentcallbacks''" and "k \<noteq> js ''__domcallbacks''"
  shows "map_of res k = map_of (snd newProps) k"
  using assms(1,2)
proof (induction es arbitrary: newProps st)
  case Nil
  then show ?case by auto
next
  case (Cons x es)
  obtain key v where x: "x = (key, v)" by (cases x)
  from Cons.prems(2) have ne: "k \<noteq> key" and notin: "k \<notin> fst ` set es"
    by (auto simp: x)
  from Cons.prems(1) consider
      (plain) w np st1 where "obj_write newProps key w = Inr np"
        "serializeProps_entries P componentId parentId es np st1 = (Inr res, st')"
    | (fn) np st1 where "registerCallback componentId parentId key v newProps st = (Inr np, st1)"
        "serializeProps_entries P componentId parentId es np st1 = (Inr res, st')"
    unfolding x
    by (subst (asm) serializeProps_entries.simps)
       (auto split: if_splits prod.splits sum.splits)
  then show ?case
  proof cases
    case plain
    from Cons.IH [OF plain(2) notin] obj_write_frame [OF plain(1) ne] show ?thesis by simp
  next
    case fn
    from Cons.IH [OF fn(2) notin] registerCallback_frame [OF fn(1) assms(3,4)]
    show ?thesis by simp
  qed
qed

lemma not_rendered_string [simp]: "\<not> isRendered (VStr s)"
  by (simp add: isRendered_def)

lemma not_proxy_string [simp]: "\<not> isProxy (VStr s)"
  by (simp add: isProxy_def)

lemma serializeProps_entries_string:
  assumes "serializeProps_entries P componentId parentId es newProps st = (Inr res, st')"
    and "(k, VStr s) \<in> set es" and "distinct (map fst es)"
    and "k \<noteq> js ''__componentcallbacks''" and "k \<noteq> js ''__domcallbacks''"
    and "k \<noteq> js ''__proto__''"
  shows "map_of res k = Some (VStr s)"
  using assms(1,2,3)
proof (induction es arbitrary: newProps st)
  case Nil
  then show ?case by simp
next
  case (Cons x es)
  obtain key v where x: "x = (key, v)" by (cases x)
  show ?case
  proof (cases "x = (k, VStr s)")
    case True
    with Cons.prems(3) have notin: "k \<notin> fst ` set es" by auto
    from Cons.prems(1) obtain np where
      w: "obj_write newProps k (VStr s) = Inr np"
      and rest: "serializeProps_entries P componentId parentId es np st = (Inr res, st')"
      unfolding True
      by (subst (asm) serializeProps_entries.simps) (auto split: sum.splits)
    from serializeProps_entries_frame [OF rest notin assms(4,5)]
      obj_write_stored [OF w assms(6)]
    show ?thesis by simp
  next
    case False
    with Cons.prems(2) have mem: "(k, VStr s) \<in> set es" by simp
    from Cons.prems(3) have dist: "distinct (map fst es)" by simp
    from Cons.prems(1) obtain np st1 where
      "serializeProps_entries P componentId parentId es np st1 = (Inr res, st')"
      unfolding x
      by (subst (asm) serializeProps_entries.simps)
         (auto split: if_splits prod.splits sum.splits)
    from Cons.IH [OF this mem dist] show ?thesis .
  qed
qed


lemma serializeProps_entries_legacy_frame:
  assumes "serializeProps_entries_legacy L n componentId parentId es newProps st = Some (Inr res, st')"
    and "k \<notin> fst ` set es"
    and "k \<noteq> js ''__componentcallbacks''" and "k \<noteq> js ''__domcallbacks''"
  shows "map_of res k = map_of (snd newProps) k"
  using assms(1,2)
proof (induction es arbitrary: newProps st)
  case Nil
  then show ?case by auto
next
  case (Cons x es)
  obtain key v where x: "x = (key, v)" by (cases x)
  from Cons.prems(2) have ne: "k \<noteq> key" and notin: "k \<notin> fst ` set es"
    by (auto simp: x)
  from Cons.prems(1) consider
      (plain) w np st1 where "obj_write newProps key w = Inr np"
        "serializeProps_entries_legacy L n componentId parentId es np st1 = Some (Inr res, st')"
    | (fn) np st1 where "registerCallback componentId parentId key v newProps st = (Inr np, st1)"
        "serializeProps_entries_legacy L n componentId parentId es np st1 = Some (Inr res, st')"
    unfolding x
    by (subst (asm) serializeProps_entries_legacy.simps)
       (auto split: if_splits prod.splits sum.splits option.splits)
  then show ?case
  proof cases
    case plain
    from Cons.IH [OF plain(2) notin] obj_write_frame [OF plain(1) ne] show ?thesis by simp
  next
    case fn
    from Cons.IH [OF fn(2) notin] registerCallback_frame [OF fn(1) assms(3,4)]
    show ?thesis by simp
  qed
qed

lemma serializeProps_entries_legacy_string:
  assumes "serializeProps_entries_legacy L n componentId parentId es newProps st = Some (Inr res, st')"
    and "(k, VStr s) \<in> set es" and "distinct (map fst es)"
    and "k \<noteq> js ''__componentcallbacks''" and "k \<noteq> js ''__domcallbacks''"
    and "k \<noteq> js ''__proto__''"
  shows "map_of res k = Some (VStr (decodeJsonString_param L s))"
  using assms(1,2,3)
proof (induction es arbitrary: newProps st)
  case Nil
  then show ?case by simp
next
  case (Cons x es)
  obtain key v where x: "x = (key, v)" by (cases x)
  show ?case
  proof (cases "x = (k, VStr s)")
    case True
    with Cons.prems(3) have notin: "k \<notin> fst ` set es" by auto
    from Cons.prems(1) obtain np where
      w: "obj_write newProps k (VStr (decodeJsonString_param L s)) = Inr np"
      and rest: "serializeProps_entries_legacy L n componentId parentId es np st
                   = Some (Inr res, st')"
      unfolding True
      by (subst (asm) serializeProps_entries_legacy.simps) (auto split: sum.splits)
    from serializeProps_entries_legacy_frame [OF rest notin assms(4,5)]
      obj_write_stored [OF w assms(6)]
    show ?thesis by simp
  next
    case False
    with Cons.prems(2) have mem: "(k, VStr s) \<in> set es" by simp
    from Cons.prems(3) have dist: "distinct (map fst es)" by simp
    from Cons.prems(1) obtain np st1 where
      "serializeProps_entries_legacy L n componentId parentId es np st1 = Some (Inr res, st')"
      unfolding x
      by (subst (asm) serializeProps_entries_legacy.simps)
         (auto split: if_splits prod.splits sum.splits option.splits)
    from Cons.IH [OF this mem dist] show ?thesis .
  qed
qed

definition legacyParams :: legacy where
  "legacyParams =
     \<lparr>builtinComponents = (\<lambda>name. None), preactRootComponentName = js ''Fragment'',
      decodeJsonString_param = decodeJsonString,
      invoke = (\<lambda>f props. Inr (VObj [(js ''type'', VStr (js ''span'')), (js ''props'', props)]))\<rparr>"

lemmas legacy_eval =
  serializeNode_legacy.simps serializeProps_entries_legacy.simps serializeChildren_legacy.simps
  share.simps
  serializeElement_legacy.simps serializeProps_legacy_def isRendered_def isProxy_def
  registerCallback_def addMarker_def propFnKey_def callbackIdentity_def unifiedChildren_def
  nodeProps_def flat_def placeholder_def buildComponentId_def js_join_def optional_toString_def
  passThroughProps_def builtinParts_def Let_def

text \<open>
  C7 (as stated): \<^verbatim>\<open>serializeProps\<close> applies \<^verbatim>\<open>encodeJsonString\<close> to a string prop, and
  \<^verbatim>\<open>decodeJsonString\<close> is applied on the receiving side only. The \<^verbatim>\<open>serializeProps\<close> of
  \<^verbatim>\<open>composeSerializationMethods\<close> stores a string with a newline as it is; the one of
  \<^verbatim>\<open>serialize.ts\<close> decodes: it turns U+2063 into a newline while sending. A string under
  \<^verbatim>\<open>__proto__\<close> is not stored at all, and an empty string under a marker name gives way
  to the markers of the function-valued props.
\<close>

theorem C7_string_props_counterexample:
  "serializeProps rootParams None (js ''root'') (VObj [(js ''title'', VStr [0x61, 0x0A, 0x62])])
     emptyContainer = (Inr [(js ''title'', VStr [0x61, 0x0A, 0x62])], emptyContainer) \<and>
   encodeJsonString [0x61, 0x0A, 0x62] = [0x61, 0x2063, 0x62] \<and>
   serializeProps_legacy legacyParams 1 None (js ''root'')
     (VObj [(js ''title'', VStr [0x61, 0x2063, 0x62])]) emptyContainer =
     Some (Inr [(js ''title'', VStr [0x61, 0x0A, 0x62])], emptyContainer) \<and>
   serializeProps rootParams None (js ''root'') (VObj [(js ''__proto__'', VStr (js ''x''))])
     emptyContainer = (Inr [], emptyContainer) \<and>
   serializeProps rootParams None (js ''root'')
     (VObj [(js ''__domcallbacks'', VStr []),
            (js ''onClick'', VFun (Func 7 [] (js ''() => 1'')))]) emptyContainer =
     (Inr [(js ''__domcallbacks'',
            VObj [(js ''onClick'',
                   VObj [(js ''__componentMethod'', VStr (js ''onClick::() => 1::root''))])])],
      emptyContainer\<lparr>callbacks :=
        [(js ''onClick::() => 1::root'', VFun (Func 7 [] (js ''() => 1'')))]\<rparr>)"
  by (simp add: serializer_eval legacy_eval legacyParams_def encodeJsonString_def
      decodeJsonString_def replace_unit_def emptyContainer_def object_eval)

text \<open>
  C7 (amended): for a string-valued prop of a props object, under a key other than the
  two marker names and \<^verbatim>\<open>__proto__\<close>, the \<^verbatim>\<open>serializeProps\<close> of
  \<^verbatim>\<open>composeSerializationMethods\<close> stores the string itself, and the \<^verbatim>\<open>serializeProps\<close> of
  \<^verbatim>\<open>serialize.ts\<close> stores what the \<^verbatim>\<open>decodeJsonString\<close> it was given makes of it, whenever
  they return. Neither applies \<^verbatim>\<open>encodeJsonString\<close>. Both return, without a throw and
  whatever the bound on the depth, when no value of the props is a rendered node and no
  key is a marker name or \<^verbatim>\<open>__proto__\<close>.
\<close>

theorem C7_string_props:
  assumes "(k, VStr s) \<in> set (entries props)" and "distinct (map fst (entries props))"
    and "k \<noteq> js ''__componentcallbacks''" and "k \<noteq> js ''__domcallbacks''"
    and "k \<noteq> js ''__proto__''"
  shows "(serializeProps P componentId parentId props st = (Inr res, st') \<longrightarrow>
            map_of res k = Some (VStr s)) \<and>
         (serializeProps_legacy L n componentId parentId props st = Some (Inr res', st'') \<longrightarrow>
            map_of res' k = Some (VStr (decodeJsonString_param L s))) \<and>
         (simpleProps (entries props) \<longrightarrow>
            (\<exists>r t. serializeProps P componentId parentId props st = (Inr r, t) \<and>
                   map_of r k = Some (VStr s)) \<and>
            (\<exists>r t. serializeProps_legacy L n componentId parentId props st = Some (Inr r, t) \<and>
                   map_of r k = Some (VStr (decodeJsonString_param L s))))"
proof -
  from assms(1) have "entries props \<noteq> []" by auto
  then have nn: "\<not> nullish props" by (cases props) auto
  have new: "map_of r k = Some (VStr s)"
    if "serializeProps P componentId parentId props st = (Inr r, t)" for r t
  proof -
    from that nn
    have "serializeProps_entries P componentId parentId (entries props) empty_object st = (Inr r, t)"
      by (simp add: serializeProps_def)
    then show ?thesis
      using assms by (rule serializeProps_entries_string)
  qed
  have old: "map_of r k = Some (VStr (decodeJsonString_param L s))"
    if "serializeProps_legacy L n componentId parentId props st = Some (Inr r, t)" for r t
  proof -
    from that nn
    have "serializeProps_entries_legacy L n componentId parentId (entries props) empty_object st
            = Some (Inr r, t)"
      by (simp add: serializeProps_legacy_def)
    then show ?thesis
      using assms by (rule serializeProps_entries_legacy_string)
  qed
  have returns: "(\<exists>r t. serializeProps P componentId parentId props st = (Inr r, t)) \<and>
      (\<exists>r t. serializeProps_legacy L n componentId parentId props st = Some (Inr r, t))"
    if simple: "simpleProps (entries props)"
  proof
    from serializeProps_entries_simple [OF simple markersOk_empty, of P componentId parentId st]
    show "\<exists>r t. serializeProps P componentId parentId props st = (Inr r, t)"
      using nn by (auto simp: serializeProps_def)
    from serializeProps_entries_legacy_simple [OF simple markersOk_empty,
        of L n componentId parentId st]
    show "\<exists>r t. serializeProps_legacy L n componentId parentId props st = Some (Inr r, t)"
      using nn by (auto simp: serializeProps_legacy_def)
  qed
  show ?thesis
    using new old returns by blast
qed

definition titleProps :: jsval where
  "titleProps =
     VObj [(js ''title'', VStr [0x61, 0x2063, 0x62]),
           (js ''onClick'', VFun (Func 7 [] (js ''() => 1'')))]"

theorem C7_string_props_witness:
  "serializeProps rootParams None (js ''root'') titleProps emptyContainer =
     (Inr [(js ''title'', VStr [0x61, 0x2063, 0x62]),
           (js ''__domcallbacks'',
            VObj [(js ''onClick'',
                   VObj [(js ''__componentMethod'', VStr (js ''onClick::() => 1::root''))])])],
      emptyContainer\<lparr>callbacks :=
        [(js ''onClick::() => 1::root'', VFun (Func 7 [] (js ''() => 1'')))]\<rparr>) \<and>
   serializeProps_legacy legacyParams 1 None (js ''root'') titleProps emptyContainer =
     Some (Inr [(js ''title'', VStr [0x61, 0x0A, 0x62]),
                (js ''__domcallbacks'',
                 VObj [(js ''onClick'',
                        VObj [(js ''__componentMethod'', VStr (js ''onClick::() => 1::root''))])])],
           emptyContainer\<lparr>callbacks :=
             [(js ''onClick::() => 1::root'', VFun (Func 7 [] (js ''() => 1'')))]\<rparr>) \<and>
   map_of [(js ''title'', VStr [0x61, 0x2063, 0x62]),
           (js ''__domcallbacks'',
            VObj [(js ''onClick'',
                   VObj [(js ''__componentMethod'', VStr (js ''onClick::() => 1::root''))])])]
     (js ''title'') = Some (VStr [0x61, 0x2063, 0x62]) \<and>
   map_of [(js ''title'', VStr [0x61, 0x0A, 0x62]),
           (js ''__domcallbacks'',
            VObj [(js ''onClick'',
                   VObj [(js ''__componentMethod'', VStr (js ''onClick::() => 1::root''))])])]
     (js ''title'') = Some (VStr (decodeJsonString [0x61, 0x2063, 0x62]))"
proof -
  have mem: "(js ''title'', VStr [0x61, 0x2063, 0x62]) \<in> set (entries titleProps)"
    by (simp add: titleProps_def)
  have dist: "distinct (map fst (entries titleProps))"
    by (simp add: titleProps_def js_def)
  have ne: "js ''title'' \<noteq> js ''__componentcallbacks''" "js ''title'' \<noteq> js ''__domcallbacks''"
    by (simp_all add: js_def)
  have run: "serializeProps rootParams None (js ''root'') titleProps emptyContainer =
     (Inr [(js ''title'', VStr [0x61, 0x2063, 0x62]),
           (js ''__domcallbacks'',
            VObj [(js ''onClick'',
                   VObj [(js ''__componentMethod'', VStr (js ''onClick::() => 1::root''))])])],
      emptyContainer\<lparr>callbacks :=
        [(js ''onClick::() => 1::root'', VFun (Func 7 [] (js ''() => 1'')))]\<rparr>)"
    by (simp add: serializer_eval titleProps_def emptyContainer_def object_eval)
  have runL: "serializeProps_legacy legacyParams 1 None (js ''root'') titleProps emptyContainer =
     Some (Inr [(js ''title'', VStr [0x61, 0x0A, 0x62]),
                (js ''__domcallbacks'',
                 VObj [(js ''onClick'',
                        VObj [(js ''__componentMethod'', VStr (js ''onClick::() => 1::root''))])])],
           emptyContainer\<lparr>callbacks :=
             [(js ''onClick::() => 1::root'', VFun (Func 7 [] (js ''() => 1'')))]\<rparr>)"
    by (simp add: legacy_eval titleProps_def emptyContainer_def legacyParams_def
        decodeJsonString_def replace_unit_def object_eval)
  have dec: "decodeJsonString_param legacyParams = decodeJsonString"
    by (simp add: legacyParams_def)
  have np: "js ''title'' \<noteq> js ''__proto__''"
    by (simp add: js_def)
  have simple: "simpleProps (entries titleProps)"
    by (simp add: titleProps_def simpleProps_def isRendered_def js_def)
  show ?thesis
    using C7_string_props [OF mem dist ne np, of rootParams None "js ''root''" emptyContainer _ _
        legacyParams 1] run runL dec simple
    by (simp add: decodeJsonString_def replace_unit_def)
qed

section \<open>Keys of the callback map\<close>

lemma propFnKey_eq_iff:
  assumes "0x3A \<notin> set k" and "0x3A \<notin> set k'"
  shows "propFnKey k componentId v parentId = propFnKey k' componentId' v' parentId
           \<longleftrightarrow> k = k' \<and> callbackIdentity componentId v = callbackIdentity componentId' v'"
proof
  let ?m = "callbackIdentity componentId v" and ?m' = "callbackIdentity componentId' v'"
  assume "propFnKey k componentId v parentId = propFnKey k' componentId' v' parentId"
  then have "k @ 0x3A # (0x3A # ?m @ [0x3A, 0x3A] @ parentId)
               = k' @ 0x3A # (0x3A # ?m' @ [0x3A, 0x3A] @ parentId)"
    by (simp add: propFnKey_def js_def)
  then have "k = k' \<and> 0x3A # ?m @ [0x3A, 0x3A] @ parentId = 0x3A # ?m' @ [0x3A, 0x3A] @ parentId"
    by (rule split_at_first [OF assms])
  then show "k = k' \<and> ?m = ?m'" by simp
next
  assume "k = k' \<and> callbackIdentity componentId v = callbackIdentity componentId' v'"
  then show "propFnKey k componentId v parentId = propFnKey k' componentId' v' parentId"
    by (simp add: propFnKey_def)
qed

lemma argFnKey_eq_iff:
  "argFnKey componentId v = argFnKey componentId v'
     \<longleftrightarrow> remove_backslash_n (js_toString v) = remove_backslash_n (js_toString v')"
  by (simp add: argFnKey_def)

lemma registerCallback_callbacks:
  "callbacks (snd (registerCallback componentId parentId key v newProps st)) =
     obj_assign (callbacks st) (propFnKey key componentId v parentId) v"
  by (simp add: registerCallback_def Let_def)

lemma registerCallback_fresh:
  "\<exists>np. fst (registerCallback componentId parentId key v empty_object st) = Inr np"
  using registerCallback_ok [OF markersOk_empty, of componentId parentId key v st] by auto

text \<open>A props object with one function-valued prop: the function goes into the map.\<close>

lemma serializeProps_single_function:
  assumes "typeof_function v"
  shows "callbacks (snd (serializeProps P componentId parentId (VObj [(k, v)]) st)) =
           obj_assign (callbacks st) (propFnKey k componentId v parentId) v"
proof -
  obtain r st1 where reg: "registerCallback componentId parentId k v empty_object st = (r, st1)"
    by (cases "registerCallback componentId parentId k v empty_object st")
  obtain np where np: "r = Inr np"
    using registerCallback_fresh [of componentId parentId k v st] reg by auto
  have "callbacks st1 = obj_assign (callbacks st) (propFnKey k componentId v parentId) v"
    using registerCallback_callbacks [of componentId parentId k v empty_object st] reg by simp
  then show ?thesis
    using assms reg np
    by (simp add: serializeProps_def serializeProps_entries.simps)
qed

lemma serializeArgs_two_functions:
  assumes "typeof_function v" and "typeof_function v'"
  shows "snd (serializeArgs componentId [v, v'] cbs) =
           obj_assign (obj_assign cbs (argFnKey componentId v) v) (argFnKey componentId v') v'"
  using assms by (cases v; cases v') (simp_all add: Let_def)

text \<open>
  C2 (as stated): two distinct function values registered while one tree is serialized
  are stored under distinct keys. Two buttons of one parent, each with its own closure of
  the same arrow function as \<^verbatim>\<open>onClick\<close>: the two functions get one key, and the map
  holds the second only.
\<close>

definition twoButtons :: jsval where
  "twoButtons =
     VObj [(js ''type'', VStr (js ''div'')),
           (js ''props'',
            VObj [(js ''children'',
                   VArr [VObj [(js ''type'', VStr (js ''button'')),
                               (js ''props'',
                                VObj [(js ''onClick'', VFun (Func 7 [] (js ''() => pick(item)'')))])],
                         VObj [(js ''type'', VStr (js ''button'')),
                               (js ''props'',
                                VObj [(js ''onClick'', VFun (Func 8 [] (js ''() => pick(item)'')))])]])])]"

theorem C2_fnKey_counterexample:
  "callbacks (snd (snd (serializeNode rootParams twoButtons [] (js ''root'') emptyContainer))) =
     [(js ''onClick::() => pick(item)::root'', VFun (Func 8 [] (js ''() => pick(item)'')))] \<and>
   VFun (Func 7 [] (js ''() => pick(item)'')) \<noteq> VFun (Func 8 [] (js ''() => pick(item)''))"
  by (simp add: serializer_eval twoButtons_def emptyContainer_def object_eval)

text \<open>
  C2 (amended): \<^verbatim>\<open>serializeProps\<close> stores a function under the key made of the method
  name, the owning component id or, without one, the body text (less its backslash-n
  pairs), and the parent id; \<^verbatim>\<open>serializeArgs\<close> under the body text and the component id.
  Of two functions registered one after the other under one parent id, with method names
  free of colons, the first is still found under its key exactly when the two are the
  same value or differ in method name or in component id or body text; for
  \<^verbatim>\<open>serializeArgs\<close>, exactly when they are the same value or differ in body text.
  Otherwise the second has replaced the first.
\<close>

theorem C2_fnKey_distinct_iff:
  assumes "typeof_function v" and "typeof_function v'"
    and "0x3A \<notin> set k" and "0x3A \<notin> set k'"
  shows "(map_of (callbacks (snd (serializeProps P componentId' parentId (VObj [(k', v')])
                      (snd (serializeProps P componentId parentId (VObj [(k, v)]) st)))))
            (propFnKey k componentId v parentId) = Some v
          \<longleftrightarrow> v = v' \<or> k \<noteq> k' \<or>
               callbackIdentity componentId v \<noteq> callbackIdentity componentId' v') \<and>
         (map_of (snd (serializeArgs c [v, v'] cbs)) (argFnKey c v) = Some v
          \<longleftrightarrow> v = v' \<or>
               remove_backslash_n (js_toString v) \<noteq> remove_backslash_n (js_toString v'))"
proof -
  have "map_of (callbacks (snd (serializeProps P componentId' parentId (VObj [(k', v')])
                   (snd (serializeProps P componentId parentId (VObj [(k, v)]) st)))))
          (propFnKey k componentId v parentId) =
        (if propFnKey k componentId v parentId = propFnKey k' componentId' v' parentId
         then Some v' else Some v)"
    by (simp add: serializeProps_single_function [OF assms(1)]
        serializeProps_single_function [OF assms(2)] map_of_obj_assign propFnKey_not_proto)
  moreover have "map_of (snd (serializeArgs c [v, v'] cbs)) (argFnKey c v) =
        (if argFnKey c v = argFnKey c v' then Some v' else Some v)"
    unfolding serializeArgs_two_functions [OF assms(1,2)]
    by (simp add: map_of_obj_assign argFnKey_not_proto)
  ultimately show ?thesis
    using propFnKey_eq_iff [OF assms(3,4), of componentId v parentId componentId' v']
      argFnKey_eq_iff [of c v v']
    by auto
qed

theorem C2_fnKey_distinct_witness:
  "map_of (callbacks (snd (serializeProps rootParams None (js ''root'')
             (VObj [(js ''onClick'', VFun (Func 8 [] (js ''() => drop(item)'')))])
             (snd (serializeProps rootParams None (js ''root'')
                (VObj [(js ''onClick'', VFun (Func 7 [] (js ''() => pick(item)'')))])
                emptyContainer)))))
      (propFnKey (js ''onClick'') None (VFun (Func 7 [] (js ''() => pick(item)''))) (js ''root''))
     = Some (VFun (Func 7 [] (js ''() => pick(item)''))) \<and>
   map_of (snd (serializeArgs (js ''c'')
             [VFun (Func 7 [] (js ''() => pick(item)'')), VFun (Func 8 [] (js ''() => drop(item)''))]
             []))
      (argFnKey (js ''c'') (VFun (Func 7 [] (js ''() => pick(item)''))))
     = Some (VFun (Func 7 [] (js ''() => pick(item)'')))"
proof -
  have f: "typeof_function (VFun (Func 7 [] (js ''() => pick(item)'')))"
    and g: "typeof_function (VFun (Func 8 [] (js ''() => drop(item)'')))"
    by simp_all
  have c: "0x3A \<notin> set (js ''onClick'')"
    by (simp add: js_def)
  have d: "remove_backslash_n (js ''() => pick(item)'') \<noteq> remove_backslash_n (js ''() => drop(item)'')"
    by (simp add: js_def)
  show ?thesis
    using C2_fnKey_distinct_iff [OF f g c c, of rootParams None "js ''root''" None emptyContainer
        "js ''c''" "[]"] d
    by (simp add: callbackIdentity_def)
qed

section \<open>Functions that are no component markers\<close>







section \<open>Trees of host elements and nested components\<close>

text \<open>
  The trees of the third testable property: a leaf (a text, a number, \<^verbatim>\<open>null\<close>), a host
  element with a string type, props and children, a nested component marker, a node
  whose type is the \<^verbatim>\<open>Component\<close> or \<^verbatim>\<open>Widget\<close> function, and an array of trees, as a
  list rendered among the children of an element. \<open>node_of\<close> is the node the renderer
  hands to \<^verbatim>\<open>serializeNode\<close> for a tree: the children of an element are an array under
  \<^verbatim>\<open>props.children\<close>.
\<close>

datatype tree =
    Leaf jsval
  | Host jsstr entries "tree list"
  | Marker jsval entries
  | Group "tree list"

fun node_of :: "tree \<Rightarrow> jsval" where
  "node_of (Leaf v) = v"
| "node_of (Host t props children) =
     VObj [(js ''type'', VStr t),
           (js ''props'', VObj (props @ [(js ''children'', VArr (map node_of children))]))]"
| "node_of (Marker f props) = VObj [(js ''type'', f), (js ''props'', VObj props)]"
| "node_of (Group ts) = VArr (map node_of ts)"


text \<open>
  The \<^verbatim>\<open>src\<close> and \<^verbatim>\<open>id\<close> of the markers of a tree, in document order, and the ids that
  \<^verbatim>\<open>buildComponentId\<close> makes of them under one parent id.
\<close>

fun markerKeys :: "tree \<Rightarrow> (jsval \<times> jsval) list" where
  "markerKeys (Leaf v) = []"
| "markerKeys (Host t props children) = concat (map markerKeys children)"
| "markerKeys (Marker f props) = [(get (VObj props) (js ''src''), get (VObj props) (js ''id''))]"
| "markerKeys (Group ts) = concat (map markerKeys ts)"

definition componentIds :: "jsstr \<Rightarrow> tree \<Rightarrow> jsstr list" where
  "componentIds parentId t =
     map (\<lambda>(src, instanceId). buildComponentId instanceId src parentId) (markerKeys t)"










section \<open>Serializing a well-formed tree\<close>


















lemma componentIds_simps [simp]:
  "componentIds parentId (Leaf v) = []"
  "componentIds parentId (Host t props children) = concat (map (componentIds parentId) children)"
  "componentIds parentId (Marker f props) =
     [buildComponentId (get (VObj props) (js ''id'')) (get (VObj props) (js ''src'')) parentId]"
  "componentIds parentId (Group ts) = concat (map (componentIds parentId) ts)"
  by (simp_all add: componentIds_def [abs_def] map_concat comp_def del: get.simps)











section \<open>N markers, N entries\<close>








text \<open>
  An element that is serialized before a marker shows the entry of the marker: the two
  nodes and the caller hold one array.
\<close>

definition latecomer :: tree where
  "latecomer =
     Host (js ''div'') []
       [Host (js ''span'') [] [],
        Marker componentFn [(js ''src'', VStr (js ''a'')), (js ''id'', VStr (js ''x''))]]"

lemma serializeNode_latecomer:
  "serializeNode rootParams (node_of latecomer) [] (js ''root'') emptyContainer =
     (Inr (VObj [(js ''type'', VStr (js ''div'')),
                 (js ''props'',
                  VObj [(js ''children'',
                         VArr [VObj [(js ''type'', VStr (js ''span'')),
                                     (js ''props'', VObj [(js ''children'', VArr [])]),
                                     (js ''childComponents'',
                                      VArr [VObj [(js ''trust'', VUndefined), (js ''props'', VObj []),
                                                  (js ''source'', VStr (js ''a'')),
                                                  (js ''componentId'', VStr (js ''a##x##root''))]])],
                               placeholder (js ''a##x##root'')])]),
                 (js ''childComponents'',
                  VArr [VObj [(js ''trust'', VUndefined), (js ''props'', VObj []),
                              (js ''source'', VStr (js ''a'')),
                              (js ''componentId'', VStr (js ''a##x##root''))]])]),
      [VObj [(js ''trust'', VUndefined), (js ''props'', VObj []),
             (js ''source'', VStr (js ''a'')), (js ''componentId'', VStr (js ''a##x##root''))]],
      emptyContainer)"
  by (simp add: latecomer_def serializer_eval rootParams_def componentFn_def widgetFn_def
      object_eval)




end
